theory Spec2Isabelle
  imports Complex_Main "HOL-Library.Word" "HOL-Library.Product_Lexorder"
begin

unbundle bit_operations_syntax

section \<open>Bytes, exceptions and the struct module\<close>

text \<open>
  The protocol client of \<^verbatim>\<open>communication/davis.py\<close> and \<^verbatim>\<open>communication/serial_comm.py\<close>.
  Python integers are unbounded and are modelled as \<^typ>\<open>int\<close>; the elements of a
  \<^verbatim>\<open>bytes\<close> object or of an \<^verbatim>\<open>array.array('B')\<close> are 8-bit words.  Every exception
  the code can raise is a value of \<open>error\<close>, and a function that can raise returns
  \<open>error + 'a\<close>.
\<close>

type_synonym byte = "8 word"

datatype error =
    StructError
  | IndexError
  | ValueError
  | AttributeError
  | TypeError
  | KeyError
  | ZeroDivisionError

text \<open>
  Indexing a Python list, \<^verbatim>\<open>xs[i]\<close>: an index from \<open>-len\<close> up to \<open>-1\<close> counts from the
  end, and an index outside \<open>-len .. len - 1\<close> raises \<^verbatim>\<open>IndexError\<close>.
\<close>

definition list_get :: "'a list \<Rightarrow> int \<Rightarrow> error + 'a" where
  "list_get xs i =
     (if 0 \<le> i \<and> i < int (length xs) then Inr (xs ! nat i)
      else if - int (length xs) \<le> i \<and> i < 0 then Inr (xs ! nat (int (length xs) + i))
      else Inl IndexError)"

text \<open>\<^verbatim>\<open>struct.pack('>H', v)\<close>: two bytes, high byte first; a value outside 0..65535 raises.\<close>

definition pack_be_H :: "int \<Rightarrow> error + byte list" where
  "pack_be_H v =
     (if 0 \<le> v \<and> v \<le> 65535
      then Inr [word_of_int (drop_bit 8 v), word_of_int (v AND 0xff)]
      else Inl StructError)"

text \<open>
  \<^verbatim>\<open>struct.unpack_from('>H', buf)\<close>: the first two bytes, high byte first; fewer than two
  bytes raise \<^verbatim>\<open>struct.error\<close>.
\<close>

definition be_u16 :: "byte \<Rightarrow> byte \<Rightarrow> int" where
  "be_u16 b0 b1 = 256 * uint b0 + uint b1"

fun unpack_from_be_H :: "byte list \<Rightarrow> error + int" where
  "unpack_from_be_H (b0 # b1 # _) = Inr (be_u16 b0 b1)"
| "unpack_from_be_H _ = Inl StructError"

text \<open>
  The formats without a byte-order prefix (\<^verbatim>\<open>'HH'\<close>, \<^verbatim>\<open>'2H3h5Hh8BH20B'\<close>) use the byte
  order of the machine; it is taken little-endian here, as on the machines the logger runs
  on and as the wire format is.  \<open>H\<close> is an unsigned and \<open>h\<close> a signed 16-bit field.
\<close>

definition le_u16 :: "byte \<Rightarrow> byte \<Rightarrow> int" where
  "le_u16 b0 b1 = uint b0 + 256 * uint b1"

definition le_s16 :: "byte \<Rightarrow> byte \<Rightarrow> int" where
  "le_s16 b0 b1 = (let v = le_u16 b0 b1 in if 32768 \<le> v then v - 65536 else v)"

definition u8_at :: "byte list \<Rightarrow> nat \<Rightarrow> int" where
  "u8_at s k = uint (s ! k)"

definition u16_at :: "byte list \<Rightarrow> nat \<Rightarrow> int" where
  "u16_at s k = le_u16 (s ! k) (s ! (k + 1))"

definition s16_at :: "byte list \<Rightarrow> nat \<Rightarrow> int" where
  "s16_at s k = le_s16 (s ! k) (s ! (k + 1))"

text \<open>\<^verbatim>\<open>struct.unpack('HH', s)\<close> needs exactly four bytes.\<close>

fun unpack_HH :: "byte list \<Rightarrow> error + (int \<times> int)" where
  "unpack_HH [a, b, c, d] = Inr (le_u16 a b, le_u16 c d)"
| "unpack_HH _ = Inl StructError"

text \<open>\<^verbatim>\<open>struct.unpack_from('<2H', buf)\<close> needs at least four bytes.\<close>

fun unpack_from_le_2H :: "byte list \<Rightarrow> error + (int \<times> int)" where
  "unpack_from_le_2H (a # b # c # d # _) = Inr (le_u16 a b, le_u16 c d)"
| "unpack_from_le_2H _ = Inl StructError"

text \<open>\<^verbatim>\<open>struct.pack('<2H', v, w)\<close>: each value must lie in 0..65535.\<close>

definition pack_le_2H :: "int \<Rightarrow> int \<Rightarrow> error + byte list" where
  "pack_le_2H v w =
     (if 0 \<le> v \<and> v \<le> 65535 \<and> 0 \<le> w \<and> w \<le> 65535
      then Inr [word_of_int (v AND 0xff), word_of_int (drop_bit 8 v),
                word_of_int (w AND 0xff), word_of_int (drop_bit 8 w)]
      else Inl StructError)"

text \<open>\<^verbatim>\<open>struct.unpack_from('6B', buf)\<close>: six unsigned bytes, at least six needed.\<close>

fun unpack_from_6B :: "byte list \<Rightarrow> error + int list" where
  "unpack_from_6B (a # b # c # d # e # f # _) =
     Inr [uint a, uint b, uint c, uint d, uint e, uint f]"
| "unpack_from_6B _ = Inl StructError"

text \<open>\<^verbatim>\<open>struct.pack('6B', ...)\<close>: each value must lie in 0..255.\<close>

definition pack_6B :: "int list \<Rightarrow> error + byte list" where
  "pack_6B vs =
     (if list_all (\<lambda>v. 0 \<le> v \<and> v \<le> 255) vs then Inr (map word_of_int vs)
      else Inl StructError)"

text \<open>\<^verbatim>\<open>struct.unpack('1b', rcv)\<close>: exactly one byte, read as a signed value.\<close>

fun unpack_1b :: "byte list \<Rightarrow> error + int" where
  "unpack_1b [b] = Inr (sint b)"
| "unpack_1b _ = Inl StructError"

text \<open>
  \<^verbatim>\<open>struct.unpack('2H3h5Hh8BH20B', s)\<close>: exactly 52 bytes (no padding arises: the
  16-bit field after the eight bytes starts at the even offset 30), 40 values.
\<close>

definition unpack_record :: "byte list \<Rightarrow> error + int list" where
  "unpack_record s =
     (if length s \<noteq> 52 then Inl StructError
      else Inr ([u16_at s 0, u16_at s 2, s16_at s 4, s16_at s 6, s16_at s 8,
                 u16_at s 10, u16_at s 12, u16_at s 14, u16_at s 16, u16_at s 18,
                 s16_at s 20,
                 u8_at s 22, u8_at s 23, u8_at s 24, u8_at s 25,
                 u8_at s 26, u8_at s 27, u8_at s 28, u8_at s 29,
                 u16_at s 30] @ map (u8_at s) [32..<52]))"

text \<open>
  \<^verbatim>\<open>struct.unpack_from('B52s52s52s52s52s', page)\<close>: the sequence byte and the five
  52-byte slots; at least 261 bytes are needed.  The result here is the list of the five
  slots, so that slot \<open>j\<close> is \<^verbatim>\<open>el[1 + j]\<close>.
\<close>

definition unpack_page :: "byte list \<Rightarrow> error + byte list list" where
  "unpack_page page =
     (if length page < 261 then Inl StructError
      else Inr (map (\<lambda>j. take 52 (drop (1 + 52 * j) page)) [0..<5]))"

section \<open>The CRC\<close>

definition CRC_TABLE :: "int list" where
  "CRC_TABLE = [
     0x0, 0x1021, 0x2042, 0x3063, 0x4084, 0x50a5, 0x60c6, 0x70e7,
     0x8108, 0x9129, 0xa14a, 0xb16b, 0xc18c, 0xd1ad, 0xe1ce, 0xf1ef,
     0x1231, 0x210, 0x3273, 0x2252, 0x52b5, 0x4294, 0x72f7, 0x62d6,
     0x9339, 0x8318, 0xb37b, 0xa35a, 0xd3bd, 0xc39c, 0xf3ff, 0xe3de,
     0x2462, 0x3443, 0x420, 0x1401, 0x64e6, 0x74c7, 0x44a4, 0x5485,
     0xa56a, 0xb54b, 0x8528, 0x9509, 0xe5ee, 0xf5cf, 0xc5ac, 0xd58d,
     0x3653, 0x2672, 0x1611, 0x630, 0x76d7, 0x66f6, 0x5695, 0x46b4,
     0xb75b, 0xa77a, 0x9719, 0x8738, 0xf7df, 0xe7fe, 0xd79d, 0xc7bc,
     0x48c4, 0x58e5, 0x6886, 0x78a7, 0x840, 0x1861, 0x2802, 0x3823,
     0xc9cc, 0xd9ed, 0xe98e, 0xf9af, 0x8948, 0x9969, 0xa90a, 0xb92b,
     0x5af5, 0x4ad4, 0x7ab7, 0x6a96, 0x1a71, 0xa50, 0x3a33, 0x2a12,
     0xdbfd, 0xcbdc, 0xfbbf, 0xeb9e, 0x9b79, 0x8b58, 0xbb3b, 0xab1a,
     0x6ca6, 0x7c87, 0x4ce4, 0x5cc5, 0x2c22, 0x3c03, 0xc60, 0x1c41,
     0xedae, 0xfd8f, 0xcdec, 0xddcd, 0xad2a, 0xbd0b, 0x8d68, 0x9d49,
     0x7e97, 0x6eb6, 0x5ed5, 0x4ef4, 0x3e13, 0x2e32, 0x1e51, 0xe70,
     0xff9f, 0xefbe, 0xdfdd, 0xcffc, 0xbf1b, 0xaf3a, 0x9f59, 0x8f78,
     0x9188, 0x81a9, 0xb1ca, 0xa1eb, 0xd10c, 0xc12d, 0xf14e, 0xe16f,
     0x1080, 0xa1, 0x30c2, 0x20e3, 0x5004, 0x4025, 0x7046, 0x6067,
     0x83b9, 0x9398, 0xa3fb, 0xb3da, 0xc33d, 0xd31c, 0xe37f, 0xf35e,
     0x2b1, 0x1290, 0x22f3, 0x32d2, 0x4235, 0x5214, 0x6277, 0x7256,
     0xb5ea, 0xa5cb, 0x95a8, 0x8589, 0xf56e, 0xe54f, 0xd52c, 0xc50d,
     0x34e2, 0x24c3, 0x14a0, 0x481, 0x7466, 0x6447, 0x5424, 0x4405,
     0xa7db, 0xb7fa, 0x8799, 0x97b8, 0xe75f, 0xf77e, 0xc71d, 0xd73c,
     0x26d3, 0x36f2, 0x691, 0x16b0, 0x6657, 0x7676, 0x4615, 0x5634,
     0xd94c, 0xc96d, 0xf90e, 0xe92f, 0x99c8, 0x89e9, 0xb98a, 0xa9ab,
     0x5844, 0x4865, 0x7806, 0x6827, 0x18c0, 0x8e1, 0x3882, 0x28a3,
     0xcb7d, 0xdb5c, 0xeb3f, 0xfb1e, 0x8bf9, 0x9bd8, 0xabbb, 0xbb9a,
     0x4a75, 0x5a54, 0x6a37, 0x7a16, 0xaf1, 0x1ad0, 0x2ab3, 0x3a92,
     0xfd2e, 0xed0f, 0xdd6c, 0xcd4d, 0xbdaa, 0xad8b, 0x9de8, 0x8dc9,
     0x7c26, 0x6c07, 0x5c64, 0x4c45, 0x3ca2, 0x2c83, 0x1ce0, 0xcc1,
     0xef1f, 0xff3e, 0xcf5d, 0xdf7c, 0xaf9b, 0xbfba, 0x8fd9, 0x9ff8,
     0x6e17, 0x7e36, 0x4e55, 0x5e74, 0x2e93, 0x3eb2, 0xed1, 0x1ef0]"

text \<open>
  \<^verbatim>\<open>_calculate_crc\<close>: the loop over the block, with the accumulator as the loop state.
  The table lookup is a Python list index and can raise.
\<close>

fun crc_loop :: "int \<Rightarrow> byte list \<Rightarrow> error + int" where
  "crc_loop accu [] = Inr accu"
| "crc_loop accu (b # bs) =
     (case list_get CRC_TABLE (drop_bit 8 accu XOR uint b) of
        Inl e \<Rightarrow> Inl e
      | Inr t \<Rightarrow> crc_loop (t XOR push_bit 8 (accu AND 0x00ff)) bs)"

definition calculate_crc :: "byte list \<Rightarrow> error + int" where
  "calculate_crc block = crc_loop 0 block"

section \<open>Dates and times of the datetime module\<close>

record pydate =
  year :: int
  month :: int
  day :: int

record pytime =
  hour :: int
  minute :: int
  second :: int

record pydatetime =
  dt_date :: pydate
  dt_time :: pytime

definition is_leap :: "int \<Rightarrow> bool" where
  "is_leap y = (y mod 4 = 0 \<and> (y mod 400 = 0 \<or> y mod 100 \<noteq> 0))"

definition days_in_month :: "int \<Rightarrow> int \<Rightarrow> int" where
  "days_in_month y m =
     (if m = 2 then (if is_leap y then 29 else 28)
      else if m = 4 \<or> m = 6 \<or> m = 9 \<or> m = 11 then 30 else 31)"

text \<open>The constructors \<^verbatim>\<open>date(y, m, d)\<close>, \<^verbatim>\<open>time(h, m)\<close> and \<^verbatim>\<open>datetime(...)\<close> raise
  \<^verbatim>\<open>ValueError\<close> on a field out of range.\<close>

definition mk_date :: "int \<Rightarrow> int \<Rightarrow> int \<Rightarrow> error + pydate" where
  "mk_date y m d =
     (if 1 \<le> y \<and> y \<le> 9999 \<and> 1 \<le> m \<and> m \<le> 12 \<and> 1 \<le> d \<and> d \<le> days_in_month y m
      then Inr \<lparr>year = y, month = m, day = d\<rparr>
      else Inl ValueError)"

definition mk_time :: "int \<Rightarrow> int \<Rightarrow> error + pytime" where
  "mk_time h m =
     (if 0 \<le> h \<and> h \<le> 23 \<and> 0 \<le> m \<and> m \<le> 59
      then Inr \<lparr>hour = h, minute = m, second = 0\<rparr>
      else Inl ValueError)"

definition mk_datetime :: "int \<Rightarrow> int \<Rightarrow> int \<Rightarrow> int \<Rightarrow> int \<Rightarrow> int \<Rightarrow> error + pydatetime" where
  "mk_datetime y mo d h mi s =
     (case mk_date y mo d of
        Inl e \<Rightarrow> Inl e
      | Inr dd \<Rightarrow>
          if 0 \<le> h \<and> h \<le> 23 \<and> 0 \<le> mi \<and> mi \<le> 59 \<and> 0 \<le> s \<and> s \<le> 59
          then Inr \<lparr>dt_date = dd, dt_time = \<lparr>hour = h, minute = mi, second = s\<rparr>\<rparr>
          else Inl ValueError)"

text \<open>A \<^verbatim>\<open>date\<close> object always holds a calendar date.\<close>

definition is_date :: "pydate \<Rightarrow> bool" where
  "is_date dt = (mk_date (year dt) (month dt) (day dt) = Inr dt)"

definition NULL_DATE :: pydate where
  "NULL_DATE = \<lparr>year = 1, month = 1, day = 1\<rparr>"

definition NULL_DATE_TIME :: pydatetime where
  "NULL_DATE_TIME = \<lparr>dt_date = NULL_DATE, dt_time = \<lparr>hour = 0, minute = 0, second = 0\<rparr>\<rparr>"

text \<open>Date-times compare field by field, the year first.\<close>

definition datetime_key :: "pydatetime \<Rightarrow> int \<times> int \<times> int \<times> int \<times> int \<times> int" where
  "datetime_key dt =
     (year (dt_date dt), month (dt_date dt), day (dt_date dt),
      hour (dt_time dt), minute (dt_time dt), second (dt_time dt))"

section \<open>The packed date and time\<close>

text \<open>
  In \<^verbatim>\<open>_decode_date\<close> and \<^verbatim>\<open>_decode_time\<close> the range test is written
  \<^verbatim>\<open>(y < 0 & y > 99) | ...\<close>.  In Python \<^verbatim>\<open>&\<close> binds tighter than a comparison, so
  \<^verbatim>\<open>y < 0 & y > 99\<close> is the chained comparison \<^verbatim>\<open>y < (0 & y) > 99\<close>, that is
  \<^verbatim>\<open>y < (0 & y) and (0 & y) > 99\<close>; it is modelled as it is parsed.
\<close>

definition encode_time :: "pytime \<Rightarrow> int" where
  "encode_time tm = hour tm * 100 + minute tm"

definition decode_time :: "int \<Rightarrow> error + pytime option" where
  "decode_time i =
     (let h = i div 100; m = i - (h * 100)
      in if (h < (0 AND h) \<and> (0 AND h) > 23) \<or> (m < (0 AND m) \<and> (0 AND m) > 59)
         then Inr None
         else (case mk_time h m of Inl e \<Rightarrow> Inl e | Inr t \<Rightarrow> Inr (Some t)))"

definition encode_date :: "pydate \<Rightarrow> int" where
  "encode_date dt =
     (if dt = NULL_DATE then 0 else day dt + month dt * 32 + (year dt - 2000) * 512)"

definition decode_date :: "int \<Rightarrow> error + pydate option" where
  "decode_date i =
     (let y = drop_bit 9 (i AND 0xfe00); m = drop_bit 5 (i AND 0x1e0); d = i AND 0x1f
      in if (y < (0 AND y) \<and> (0 AND y) > 99) \<or> (m < (1 AND m) \<and> (1 AND m) > 12)
            \<or> (d < (1 AND d) \<and> (1 AND d) > 31)
         then Inr None
         else (case mk_date (y + 2000) m d of Inl e \<Rightarrow> Inl e | Inr dt \<Rightarrow> Inr (Some dt)))"

definition date_time_to_array :: "pydatetime \<Rightarrow> error + byte list" where
  "date_time_to_array dt = pack_le_2H (encode_date (dt_date dt)) (encode_time (dt_time dt))"

text \<open>\<^verbatim>\<open>_is_valid_record\<close>, on the bytes of a slot.\<close>

definition is_valid_record :: "byte list \<Rightarrow> error + bool" where
  "is_valid_record s =
     (case unpack_HH (take 4 s) of
        Inl e \<Rightarrow> Inl e
      | Inr (w0, w1) \<Rightarrow>
          if w0 = 65535 \<or> w1 = 65535 then Inr False
          else (case decode_date w0 of
                  Inl e \<Rightarrow> Inl e
                | Inr None \<Rightarrow> Inr False
                | Inr (Some dt) \<Rightarrow>
                    (case decode_time w1 of
                       Inl e \<Rightarrow> Inl e
                     | Inr None \<Rightarrow> Inr False
                     | Inr (Some tm) \<Rightarrow> Inr True)))"

section \<open>Configuration and unit conversions\<close>

text \<open>
  The enumerations of the client.  Python floats are modelled as reals: rounding,
  overflow and NaN are outside the model.
\<close>

datatype RainCollector = RAIN_001IN | RAIN_01MM | RAIN_02MM

datatype RainMeasurementsUnit = MM | IN

datatype TemperatureMeasurementsUnit = F | C

datatype WindSpeedMeasurementsUnit = M_S | K

datatype WindDirMeasurementsUnit = DEG | NAMES

datatype AirPressureMeasurementsUnit = IN_HG | HPA

record config =
  rain_collector :: RainCollector
  rain_measurements_unit :: RainMeasurementsUnit
  temperature_measurements_unit :: TemperatureMeasurementsUnit
  wind_speed_measurements_unit :: WindSpeedMeasurementsUnit
  air_pressure_measurements_unit :: AirPressureMeasurementsUnit
  wind_dir_measurements_unit :: WindDirMeasurementsUnit
  retries_attempt :: int
  altitude :: real

text \<open>The defaults of \<^verbatim>\<open>DavisCommunicator.__init__\<close>.\<close>

definition RETRIES :: int where
  "RETRIES = 3"

definition default_config :: config where
  "default_config =
     \<lparr>rain_collector = RAIN_02MM, rain_measurements_unit = MM,
      temperature_measurements_unit = C, wind_speed_measurements_unit = M_S,
      air_pressure_measurements_unit = HPA, wind_dir_measurements_unit = NAMES,
      retries_attempt = RETRIES, altitude = 0\<rparr>"

datatype wind_dir_value = DirName string | DirDeg real

definition WIND_DIRECTIONS :: "string list" where
  "WIND_DIRECTIONS =
     [''N'', ''NNE'', ''NE'', ''ENE'', ''E'', ''ESE'', ''SE'', ''SSE'',
      ''S'', ''SSW'', ''SW'', ''WSW'', ''W'', ''WNW'', ''NW'', ''NNW'']"

definition WIND_DIRECTIONS_DEG_MAP :: "(string \<times> real) list" where
  "WIND_DIRECTIONS_DEG_MAP =
     [(''N'', 0.0), (''NNE'', 22.5), (''NE'', 45.0), (''ENE'', 67.5),
      (''E'', 90.0), (''ESE'', 112.5), (''SE'', 135), (''SSE'', 157.5),
      (''S'', 180.0), (''SSW'', 202.5), (''SW'', 225.0), (''WSW'', 247.5),
      (''W'', 270.0), (''WNW'', 292.5), (''NW'', 315.0), (''NNW'', 337.5)]"

definition convert_wind_dir :: "config \<Rightarrow> int \<Rightarrow> error + wind_dir_value option" where
  "convert_wind_dir cfg wv =
     (if 0 \<le> wv \<and> wv \<le> 15 then
        (case list_get WIND_DIRECTIONS wv of
           Inl e \<Rightarrow> Inl e
         | Inr wind_dir_name \<Rightarrow>
             if wind_dir_measurements_unit cfg = NAMES then Inr (Some (DirName wind_dir_name))
             else (case map_of WIND_DIRECTIONS_DEG_MAP wind_dir_name of
                     None \<Rightarrow> Inl KeyError
                   | Some deg \<Rightarrow> Inr (Some (DirDeg deg))))
      else Inr None)"

text \<open>
  \<^verbatim>\<open>_convert_rain\<close>.  The branches \<^verbatim>\<open>transform = None\<close> and the final
  \<^verbatim>\<open>return None\<close> are those of a unit or a collector that is no member of its
  enumeration; the enumerations have no such member.
\<close>

definition convert_rain :: "config \<Rightarrow> int \<Rightarrow> real option" where
  "convert_rain cfg v =
     (case rain_measurements_unit cfg of
        MM \<Rightarrow>
          (let transform =
                 (case rain_collector cfg of
                    RAIN_001IN \<Rightarrow> Some (0.01 * 25.45)
                  | RAIN_01MM \<Rightarrow> Some 0.1
                  | RAIN_02MM \<Rightarrow> Some 0.2)
           in (case transform of Some t \<Rightarrow> Some (real_of_int v * t) | None \<Rightarrow> None))
      | IN \<Rightarrow>
          (let transform =
                 (case rain_collector cfg of
                    RAIN_001IN \<Rightarrow> Some 0.01
                  | RAIN_01MM \<Rightarrow> Some (0.1 / 25.45)
                  | RAIN_02MM \<Rightarrow> Some (0.2 / 25.45))
           in (case transform of Some t \<Rightarrow> Some (real_of_int v * t) | None \<Rightarrow> None)))"

definition convert_wind_speed :: "config \<Rightarrow> int \<Rightarrow> real" where
  "convert_wind_speed cfg v =
     (if wind_speed_measurements_unit cfg = K then real_of_int v else real_of_int v * 0.44704)"

definition convert_air_pressure :: "config \<Rightarrow> int \<Rightarrow> real" where
  "convert_air_pressure cfg v =
     (let air_press_in_hg = real_of_int v / 1000.0
      in if air_pressure_measurements_unit cfg = IN_HG then air_press_in_hg
         else air_press_in_hg * 33.86389)"

definition convert_temp :: "config \<Rightarrow> int \<Rightarrow> real" where
  "convert_temp cfg v =
     (let temp_in_fahrenheit = real_of_int v / 10.0
      in if temperature_measurements_unit cfg = F then temp_in_fahrenheit
         else 5.0 / 9.0 * (temp_in_fahrenheit - 32))"

definition G0 :: real where
  "G0 = 9.80665"

definition RS :: real where
  "RS = 8.31432"

definition M_AIR :: real where
  "M_AIR = 0.0289644"

text \<open>
  \<^verbatim>\<open>_barometric_formula\<close>.  Its first loop returns NaN when an argument is NaN; a real
  is never NaN, so the loop has no counterpart here.  A float division by zero raises
  \<^verbatim>\<open>ZeroDivisionError\<close>.
\<close>

definition barometric_formula :: "real \<Rightarrow> real \<Rightarrow> real \<Rightarrow> error + real" where
  "barometric_formula temp barometric_pressure hdiff =
     (let temp' = temp + 273.75
      in if RS * temp' = 0 then Inl ZeroDivisionError
         else Inr (barometric_pressure * exp ((- G0 * M_AIR * hdiff) / (RS * temp'))))"

section \<open>The archive record\<close>

record MeteoRecord =
  record_date :: "pydate option"
  record_time :: "pytime option"
  out_temp :: "real option"
  low_out_temp :: "real option"
  hi_out_temp :: "real option"
  outside_humidity :: "int option"
  barometer :: "real option"
  barometer_sea :: "real option"
  avg_wind_speed :: "real option"
  direction_prev_wind :: "wind_dir_value option"
  high_wind_speed :: "real option"
  direction_hi_wind :: "wind_dir_value option"
  rainfall :: "real option"
  high_rain_rate :: "real option"
  solar_radiation :: "int option"
  no_wind_samples :: "int option"
  inside_temp :: "real option"
  inside_humidity :: "int option"

text \<open>\<^verbatim>\<open>MeteoRecord.datetime\<close>: \<^verbatim>\<open>datetime.combine\<close> raises \<^verbatim>\<open>TypeError\<close> on \<^verbatim>\<open>None\<close>.\<close>

definition meteo_datetime :: "MeteoRecord \<Rightarrow> error + pydatetime" where
  "meteo_datetime r =
     (case (record_date r, record_time r) of
        (Some d, Some t) \<Rightarrow> Inr \<lparr>dt_date = d, dt_time = t\<rparr>
      | _ \<Rightarrow> Inl TypeError)"

text \<open>
  \<^verbatim>\<open>_create_archive_data_from_bytes\<close>.  The attribute access \<^verbatim>\<open>dt.year\<close> on a
  \<^verbatim>\<open>None\<close> date raises \<^verbatim>\<open>AttributeError\<close>.
\<close>

definition create_archive_data_from_bytes :: "config \<Rightarrow> byte list \<Rightarrow> error + MeteoRecord" where
  "create_archive_data_from_bytes cfg s =
     (case unpack_record s of
        Inl e \<Rightarrow> Inl e
      | Inr vl \<Rightarrow>
     (case decode_date (vl ! 0) of
        Inl e \<Rightarrow> Inl e
      | Inr None \<Rightarrow> Inl AttributeError
      | Inr (Some dt) \<Rightarrow>
     (case decode_time (vl ! 1) of
        Inl e \<Rightarrow> Inl e
      | Inr tm \<Rightarrow>
     (case (if vl ! 15 = 255 then Inr None else convert_wind_dir cfg (vl ! 15)) of
        Inl e \<Rightarrow> Inl e
      | Inr dir_hi \<Rightarrow>
     (case (if vl ! 16 = 255 then Inr None else convert_wind_dir cfg (vl ! 16)) of
        Inl e \<Rightarrow> Inl e
      | Inr dir_prev \<Rightarrow>
     (let rdate = (if year dt = 0 \<and> month dt = 0 \<and> day dt = 0 then None else Some dt);
          baro = (if vl ! 7 = 0 then None else Some (convert_air_pressure cfg (vl ! 7)));
          itemp = (if vl ! 10 = 32767 then None else Some (convert_temp cfg (vl ! 10)))
      in
     (case (case (baro, itemp) of
              (Some b, Some t) \<Rightarrow>
                (case barometric_formula t b (0.0 - altitude cfg) of
                   Inl e \<Rightarrow> Inl e
                 | Inr v \<Rightarrow> Inr (Some v))
            | _ \<Rightarrow> Inr None) of
        Inl e \<Rightarrow> Inl e
      | Inr baro_sea \<Rightarrow>
          Inr \<lparr>record_date = rdate,
               record_time = tm,
               out_temp = (if vl ! 2 = 32767 then None else Some (convert_temp cfg (vl ! 2))),
               low_out_temp = (if vl ! 4 = 32767 then None else Some (convert_temp cfg (vl ! 4))),
               hi_out_temp = (if vl ! 3 = - 32768 then None else Some (convert_temp cfg (vl ! 3))),
               outside_humidity = (if vl ! 12 = 255 then None else Some (vl ! 12)),
               barometer = baro,
               barometer_sea = baro_sea,
               avg_wind_speed =
                 (if vl ! 13 = 255 then None else Some (convert_wind_speed cfg (vl ! 13))),
               direction_prev_wind = dir_prev,
               high_wind_speed =
                 (if vl ! 14 = 0 then None else Some (convert_wind_speed cfg (vl ! 14))),
               direction_hi_wind = dir_hi,
               rainfall = convert_rain cfg (vl ! 5),
               high_rain_rate = convert_rain cfg (vl ! 6),
               solar_radiation = (if vl ! 8 = 32767 then None else Some (vl ! 8)),
               no_wind_samples = (if vl ! 9 = 0 then None else Some (vl ! 9)),
               inside_temp = itemp,
               inside_humidity = (if vl ! 11 = 255 then None else Some (vl ! 11))\<rparr>)))))))"

section \<open>The serial transport\<close>

text \<open>
  The port is modelled as a scripted pipe: \<open>rx\<close> holds the bytes the console sends, in
  order, and \<open>tx\<close> the bytes written so far.  \<^verbatim>\<open>read(n)\<close> of the serial library returns
  \<open>n\<close> bytes, or fewer when the time-out strikes, which is when the script is used up.
\<close>

record port =
  rx :: "byte list"
  tx :: "byte list"

definition CR :: byte where "CR = 0x0D"
definition LF :: byte where "LF = 0x0A"
definition ACK :: byte where "ACK = 0x06"
definition NAK :: byte where "NAK = 0x21"
definition CANCEL :: byte where "CANCEL = 0x18"

text \<open>\<^verbatim>\<open>Communicator.read\<close> and \<^verbatim>\<open>Communicator.write\<close>.\<close>

definition comm_read :: "nat \<Rightarrow> port \<Rightarrow> byte list \<times> port" where
  "comm_read num_bytes p = (take num_bytes (rx p), p\<lparr>rx := drop num_bytes (rx p)\<rparr>)"

definition comm_write :: "byte list \<Rightarrow> port \<Rightarrow> port" where
  "comm_write bytes_to_send p = p\<lparr>tx := tx p @ bytes_to_send\<rparr>"

definition write_ack :: "port \<Rightarrow> port" where
  "write_ack p = comm_write [ACK] p"

definition wait_for_ack :: "port \<Rightarrow> error + (bool \<times> port)" where
  "wait_for_ack p =
     (let (rcv, p') = comm_read 1 p
      in (case unpack_1b rcv of
            Inl e \<Rightarrow> Inl e
          | Inr v \<Rightarrow> Inr (uint ACK = v, p')))"

text \<open>The bytes of an ASCII literal such as \<^verbatim>\<open>b'GETTIME'\<close>.\<close>

definition ascii :: "string \<Rightarrow> byte list" where
  "ascii s = map of_char s"

section \<open>The console protocol\<close>

text \<open>\<^verbatim>\<open>wake_up\<close>: the loop over \<^verbatim>\<open>range(retries_attempt)\<close>, by the attempts left.\<close>

fun wake_up_loop :: "nat \<Rightarrow> port \<Rightarrow> bool \<times> port" where
  "wake_up_loop 0 p = (False, p)"
| "wake_up_loop (Suc n) p =
     (let p1 = comm_write [LF] p;
          (rcv, p2) = comm_read 2 p1
      in if [LF, CR] = rcv then (True, p2) else wake_up_loop n p2)"

definition wake_up :: "config \<Rightarrow> port \<Rightarrow> bool \<times> port" where
  "wake_up cfg p = wake_up_loop (nat (retries_attempt cfg)) p"

text \<open>\<^verbatim>\<open>get_time\<close>.  The result of \<^verbatim>\<open>wait_for_ack\<close> is not looked at.\<close>

definition get_time :: "port \<Rightarrow> error + (pydatetime option \<times> port)" where
  "get_time p =
     (let p1 = comm_write (ascii ''GETTIME'') p;
          p2 = comm_write [LF] p1
      in (case wait_for_ack p2 of
            Inl e \<Rightarrow> Inl e
          | Inr (_, p3) \<Rightarrow>
     (let (rcv, p4) = comm_read 6 p3;
          (crcv, p5) = comm_read 2 p4
      in (case unpack_from_be_H crcv of
            Inl e \<Rightarrow> Inl e
          | Inr crc_rcv \<Rightarrow>
         (case calculate_crc rcv of
            Inl e \<Rightarrow> Inl e
          | Inr crc_calc \<Rightarrow>
              if crc_rcv \<noteq> crc_calc then Inr (None, p5)
              else
                (case unpack_from_6B rcv of
                   Inl e \<Rightarrow> Inl e
                 | Inr el \<Rightarrow>
                     (case mk_datetime (1900 + el ! 5) (el ! 4) (el ! 3) (el ! 2) (el ! 1) (el ! 0) of
                        Inl e \<Rightarrow> Inl e
                      | Inr dt \<Rightarrow> Inr (Some dt, p5))))))))"

text \<open>\<^verbatim>\<open>set_time\<close>.\<close>

definition set_time :: "pydatetime \<Rightarrow> port \<Rightarrow> error + port" where
  "set_time dt p =
     (let p1 = comm_write (ascii ''SETTIME'') p;
          p2 = comm_write [LF] p1
      in (case wait_for_ack p2 of
            Inl e \<Rightarrow> Inl e
          | Inr (_, p3) \<Rightarrow>
         (case pack_6B [second (dt_time dt), minute (dt_time dt), hour (dt_time dt),
                        day (dt_date dt), month (dt_date dt), year (dt_date dt) - 1900] of
            Inl e \<Rightarrow> Inl e
          | Inr buf \<Rightarrow>
         (case calculate_crc buf of
            Inl e \<Rightarrow> Inl e
          | Inr crc_buf \<Rightarrow>
         (case pack_be_H crc_buf of
            Inl e \<Rightarrow> Inl e
          | Inr crc_bytes \<Rightarrow>
         (case wait_for_ack (comm_write crc_bytes (comm_write buf p3)) of
            Inl e \<Rightarrow> Inl e
          | Inr (_, p6) \<Rightarrow> Inr p6))))))"

text \<open>
  \<^verbatim>\<open>get_archive_data\<close>.  The body of the inner loop, for slot \<open>j\<close> of page \<open>i\<close>; \<open>el\<close>
  holds the five slots of the page.
\<close>

definition process_slot ::
  "config \<Rightarrow> pydatetime \<Rightarrow> int \<Rightarrow> nat \<Rightarrow> byte list list \<Rightarrow> nat \<Rightarrow> MeteoRecord list
     \<Rightarrow> error + MeteoRecord list" where
  "process_slot cfg last_stored_date valid_record i el j records =
     (if i = 0 \<and> int j < valid_record then Inr records
      else
        (case is_valid_record (el ! j) of
           Inl e \<Rightarrow> Inl e
         | Inr False \<Rightarrow> Inr records
         | Inr True \<Rightarrow>
             (case create_archive_data_from_bytes cfg (el ! j) of
                Inl e \<Rightarrow> Inl e
              | Inr data_record \<Rightarrow>
                  (case meteo_datetime data_record of
                     Inl e \<Rightarrow> Inl e
                   | Inr record_timestamp \<Rightarrow>
                       if datetime_key record_timestamp > datetime_key last_stored_date
                       then Inr (records @ [data_record])
                       else Inr records))))"

fun slots_loop ::
  "config \<Rightarrow> pydatetime \<Rightarrow> int \<Rightarrow> nat \<Rightarrow> byte list list \<Rightarrow> nat list \<Rightarrow> MeteoRecord list
     \<Rightarrow> error + MeteoRecord list" where
  "slots_loop cfg since vr i el [] records = Inr records"
| "slots_loop cfg since vr i el (j # js) records =
     (case process_slot cfg since vr i el j records of
        Inl e \<Rightarrow> Inl e
      | Inr records' \<Rightarrow> slots_loop cfg since vr i el js records')"

text \<open>The loop over the pages: \<open>i\<close> is the page index and \<open>n\<close> the number of pages left.\<close>

fun pages_loop ::
  "config \<Rightarrow> pydatetime \<Rightarrow> int \<Rightarrow> nat \<Rightarrow> nat \<Rightarrow> port \<Rightarrow> MeteoRecord list
     \<Rightarrow> error + (MeteoRecord list \<times> port)" where
  "pages_loop cfg since vr i 0 p records = Inr (records, p)"
| "pages_loop cfg since vr i (Suc n) p records =
     (let (page_data, p1) = comm_read 267 p;
          page = take 265 page_data;
          crc_data = take 2 (drop 265 page_data)
      in (case unpack_from_be_H crc_data of
            Inl e \<Rightarrow> Inl e
          | Inr crc \<Rightarrow>
         (case calculate_crc page of
            Inl e \<Rightarrow> Inl e
          | Inr calc_crc \<Rightarrow>
              if calc_crc = crc then
                (let p2 = write_ack p1
                 in (case unpack_page page of
                       Inl e \<Rightarrow> Inl e
                     | Inr el \<Rightarrow>
                         (case slots_loop cfg since vr i el [0..<5] records of
                            Inl e \<Rightarrow> Inl e
                          | Inr records' \<Rightarrow> pages_loop cfg since vr (Suc i) n p2 records')))
              else pages_loop cfg since vr (Suc i) n p1 records)))"

text \<open>
  \<^verbatim>\<open>records.sort(key=lambda x: x.datetime())\<close>: the keys are computed first, an
  exception of a key ends the sort; the sort is stable.
\<close>

fun datetimes :: "MeteoRecord list \<Rightarrow> error + pydatetime list" where
  "datetimes [] = Inr []"
| "datetimes (r # rs) =
     (case meteo_datetime r of
        Inl e \<Rightarrow> Inl e
      | Inr k \<Rightarrow> (case datetimes rs of Inl e \<Rightarrow> Inl e | Inr ks \<Rightarrow> Inr (k # ks)))"

definition sort_records :: "MeteoRecord list \<Rightarrow> error + MeteoRecord list" where
  "sort_records records =
     (case datetimes records of
        Inl e \<Rightarrow> Inl e
      | Inr ks \<Rightarrow> Inr (map snd (sort_key (\<lambda>kr. datetime_key (fst kr)) (zip ks records))))"

definition get_archive_data ::
  "config \<Rightarrow> pydatetime \<Rightarrow> port \<Rightarrow> error + (MeteoRecord list \<times> port)" where
  "get_archive_data cfg last_stored_date p =
     (let p1 = comm_write (ascii ''DMPAFT'') p;
          p2 = comm_write [LF] p1
      in (case wait_for_ack p2 of
            Inl e \<Rightarrow> Inl e
          | Inr (_, p3) \<Rightarrow>
         (case date_time_to_array last_stored_date of
            Inl e \<Rightarrow> Inl e
          | Inr buf \<Rightarrow>
         (case calculate_crc buf of
            Inl e \<Rightarrow> Inl e
          | Inr crc_buf \<Rightarrow>
         (case pack_be_H crc_buf of
            Inl e \<Rightarrow> Inl e
          | Inr crc_bytes \<Rightarrow>
         (case wait_for_ack (comm_write crc_bytes (comm_write buf p3)) of
            Inl e \<Rightarrow> Inl e
          | Inr (_, p6) \<Rightarrow>
         (let (rcv, p7) = comm_read 4 p6;
              (crcv, p8) = comm_read 2 p7
          in (case unpack_from_be_H crcv of
                Inl e \<Rightarrow> Inl e
              | Inr crc_rcv \<Rightarrow>
             (case unpack_from_le_2H rcv of
                Inl e \<Rightarrow> Inl e
              | Inr (num_pages, valid_record) \<Rightarrow>
             (case calculate_crc rcv of
                Inl e \<Rightarrow> Inl e
              | Inr calculated_crc \<Rightarrow>
             (case pages_loop cfg last_stored_date valid_record 0 (nat num_pages)
                     (write_ack p8) [] of
                Inl e \<Rightarrow> Inl e
              | Inr (records, p9) \<Rightarrow>
                  (case sort_records records of
                     Inl e \<Rightarrow> Inl e
                   | Inr sorted_records \<Rightarrow> Inr (sorted_records, p9)))))))))))))"

section \<open>Example slots and pages\<close>

text \<open>
  A slot of 2022-01-01 12:30 with every measurement present but the solar radiation:
  outside temperature 21.5 F, 3 rain clicks, barometer 29.920 inHg, inside temperature
  70.0 F.
\<close>

definition example_slot :: "byte list" where
  "example_slot =
     [0x21, 0x2C, 0xCE, 0x04, 0xD7, 0x00, 0xDC, 0x00, 0xD2, 0x00,
      0x03, 0x00, 0x00, 0x00, 0xE0, 0x74, 0xFF, 0x7F, 0x64, 0x00,
      0xBC, 0x02, 40, 55, 5, 12, 8, 8, 0, 0, 0, 0] @ replicate 20 0xFF"

text \<open>A slot never written: all bytes \<open>0xFF\<close>.\<close>

definition empty_slot :: "byte list" where
  "empty_slot = replicate 52 0xFF"

text \<open>A slot of 2022-01-01 12:30 with the sentinel of each field that has one.\<close>

definition sentinel_slot :: "byte list" where
  "sentinel_slot =
     [0x21, 0x2C, 0xCE, 0x04, 0xFF, 0x7F, 0x00, 0x80, 0xFF, 0x7F,
      0x00, 0x00, 0x00, 0x00, 0x00, 0x00, 0xFF, 0x7F, 0x00, 0x00,
      0xFF, 0x7F, 255, 255, 255, 0, 255, 255, 0, 0, 0, 0] @ replicate 20 0xFF"

text \<open>A slot whose packed date \<open>0x2DA1\<close> has year 22, month 13, day 1; its time is 00:00.\<close>

definition month13_slot :: "byte list" where
  "month13_slot = [0xA1, 0x2D, 0x00, 0x00] @ replicate 48 0x00"

text \<open>A slot of 2022-01-01 whose packed time is 1299: hour 12, minute 99.\<close>

definition minute99_slot :: "byte list" where
  "minute99_slot = [0x21, 0x2C, 0x13, 0x05] @ replicate 48 0x00"

text \<open>
  A page with sequence byte 0 that holds \<open>example_slot\<close> twice and three slots never
  written; its CRC is \<open>0x1F10\<close>.
\<close>

definition example_page :: "byte list" where
  "example_page =
     [0] @ example_slot @ example_slot @ empty_slot @ empty_slot @ empty_slot @ [0, 0, 0, 0]"

text \<open>The record that \<open>example_slot\<close> holds, in the units of the default configuration.\<close>

definition example_record :: MeteoRecord where
  "example_record =
     \<lparr>record_date = Some \<lparr>year = 2022, month = 1, day = 1\<rparr>,
      record_time = Some \<lparr>hour = 12, minute = 30, second = 0\<rparr>,
      out_temp = Some (5 / 9 * (21.5 - 32)),
      low_out_temp = Some (5 / 9 * (21.0 - 32)),
      hi_out_temp = Some (5 / 9 * (22.0 - 32)),
      outside_humidity = Some 55,
      barometer = Some (29.92 * 33.86389),
      barometer_sea = Some (29.92 * 33.86389),
      avg_wind_speed = Some (5 * 0.44704),
      direction_prev_wind = Some (DirName ''S''),
      high_wind_speed = Some (12 * 0.44704),
      direction_hi_wind = Some (DirName ''S''),
      rainfall = Some (3 * 0.2),
      high_rain_rate = Some 0,
      solar_radiation = None,
      no_wind_samples = Some 100,
      inside_temp = Some (5 / 9 * (70 - 32)),
      inside_humidity = Some 40\<rparr>"

section \<open>Properties of the CRC\<close>

lemma table_range: "list_all (\<lambda>x. 0 \<le> x \<and> x < 65536) CRC_TABLE"
  by (simp add: CRC_TABLE_def)

lemma table_len: "length CRC_TABLE = 256"
  by (simp add: CRC_TABLE_def)

lemma table_get:
  assumes "0 \<le> i" "i < 256"
  shows "\<exists>t. list_get CRC_TABLE i = Inr t \<and> 0 \<le> t \<and> t < 65536"
proof -
  have "nat i < length CRC_TABLE" using assms by (simp add: table_len)
  then have "0 \<le> CRC_TABLE ! nat i \<and> CRC_TABLE ! nat i < 65536"
    using table_range by (simp add: list_all_length)
  then show ?thesis using assms by (simp add: list_get_def table_len)
qed

lemma table_get_0: "list_get CRC_TABLE 0 = Inr 0"
  by (simp add: list_get_def CRC_TABLE_def)

lemma index_range:
  fixes accu :: int and b :: byte
  assumes "0 \<le> accu" "accu < 65536"
  shows "0 \<le> drop_bit 8 accu XOR uint b \<and> drop_bit 8 accu XOR uint b < 256"
proof -
  have a: "0 \<le> drop_bit 8 accu" "drop_bit 8 accu < 2 ^ 8"
    using assms by (simp_all add: drop_bit_eq_div)
  have b: "0 \<le> uint b" "uint b < 2 ^ 8"
    using uint_bounded [of b] by simp_all
  have "drop_bit 8 accu XOR uint b < 2 ^ 8"
    using a b by (intro XOR_upper) 
  then show ?thesis using a b by simp
qed

lemma step_range:
  fixes accu t :: int
  assumes "0 \<le> t" "t < 65536"
  shows "0 \<le> t XOR push_bit 8 (accu AND 0x00ff) \<and> t XOR push_bit 8 (accu AND 0x00ff) < 65536"
proof -
  have "accu AND 255 \<le> 255" by (rule AND_upper2) simp
  moreover have "0 \<le> accu AND 255" by simp
  ultimately have p: "0 \<le> push_bit 8 (accu AND 255)" "push_bit 8 (accu AND 255) < 2 ^ 16"
    by (simp_all add: push_bit_eq_mult)
  have "t XOR push_bit 8 (accu AND 255) < 2 ^ 16"
    using assms p by (intro XOR_upper) simp_all
  then show ?thesis using assms p by simp
qed

lemma crc_loop_total:
  "0 \<le> accu \<Longrightarrow> accu < 65536 \<Longrightarrow> \<exists>c. crc_loop accu bs = Inr c \<and> 0 \<le> c \<and> c < 65536"
proof (induction bs arbitrary: accu)
  case Nil
  then show ?case by simp
next
  case (Cons b bs)
  from index_range [OF Cons.prems, of b] table_get
  obtain t where t: "list_get CRC_TABLE (drop_bit 8 accu XOR uint b) = Inr t" "0 \<le> t" "t < 65536"
    by blast
  from step_range [OF t(2,3), of accu] Cons.IH
  show ?case using t(1) by simp
qed

lemma crc_loop_append:
  "crc_loop accu (xs @ ys) = (case crc_loop accu xs of Inl e \<Rightarrow> Inl e | Inr c \<Rightarrow> crc_loop c ys)"
  by (induction xs arbitrary: accu) (auto split: sum.splits)

lemma hi_byte:
  fixes c :: int
  assumes "0 \<le> c" "c < 65536"
  shows "uint (word_of_int (drop_bit 8 c) :: byte) = drop_bit 8 c"
proof -
  have "0 \<le> drop_bit 8 c" "drop_bit 8 c < 2 ^ 8"
    using assms by (simp_all add: drop_bit_eq_div)
  then show ?thesis by (simp add: uint_word_of_int take_bit_eq_mod)
qed

lemma lo_byte:
  fixes c :: int
  shows "uint (word_of_int (c AND 0xff) :: byte) = c AND 0xff"
proof -
  have "c AND 255 \<le> 255" by (rule AND_upper2) simp
  moreover have "0 \<le> c AND 255" by simp
  ultimately show ?thesis by (simp add: uint_word_of_int take_bit_eq_mod)
qed

lemma crc_self:
  fixes c :: int
  assumes "0 \<le> c" "c < 65536"
  shows "crc_loop c [word_of_int (drop_bit 8 c), word_of_int (c AND 0xff)] = Inr 0"
proof -
  have lo: "0 \<le> c AND 255" "c AND 255 < 256"
    using AND_upper2 [of 255 c] by simp_all
  have d: "drop_bit 8 (push_bit 8 (c AND 255)) = c AND 255"
    by (simp add: drop_bit_eq_div push_bit_eq_mult)
  have "push_bit 8 (c AND 255) AND mask 8 = 0"
    by (simp add: take_bit_push_bit flip: take_bit_eq_mask)
  then have e: "push_bit 8 (c AND 255) AND 255 = 0"
    by (simp add: mask_eq_exp_minus_1)
  show ?thesis
    using hi_byte [OF assms] lo_byte [of c] d e
    by (simp add: table_get_0)
qed

text \<open>
  Claim C1 (CRC round trip).  For every finite byte sequence \<open>B\<close> the CRC of \<open>B\<close> is
  computed without an exception and is a 16-bit value, so \<^verbatim>\<open>struct.pack('>H', crc)\<close>
  gives its two bytes, high byte first; the CRC computed over \<open>B\<close> followed by these two
  bytes is 0.
\<close>

theorem crc_round_trip:
  "\<exists>c crc_bytes. calculate_crc B = Inr c \<and> pack_be_H c = Inr crc_bytes \<and>
     length crc_bytes = 2 \<and> calculate_crc (B @ crc_bytes) = Inr 0"
proof -
  obtain c where c: "crc_loop 0 B = Inr c" "0 \<le> c" "c < 65536"
    using crc_loop_total [of 0 B] by auto
  show ?thesis
    using c crc_self [OF c(2,3)]
    by (simp add: calculate_crc_def pack_be_H_def crc_loop_append)
qed

section \<open>The date codec\<close>

text \<open>The range tests of the decoders never hold.\<close>

lemma one_and_le: "(1::int) AND m \<le> 1"
  by (rule AND_upper1) simp

lemma range_tests_false:
  "\<not> (12::int) < 1 AND m" "\<not> (31::int) < 1 AND d"
  using one_and_le [of m] one_and_le [of d] by linarith+

lemma decode_time_eq:
  "decode_time i =
     (case mk_time (i div 100) (i - (i div 100) * 100) of
        Inl e \<Rightarrow> Inl e | Inr t \<Rightarrow> Inr (Some t))"
  by (simp add: decode_time_def Let_def)

lemma low5: "(i::int) AND 31 = i mod 32"
proof -
  have "i AND mask 5 = i mod 2 ^ 5" by (simp add: take_bit_eq_mod flip: take_bit_eq_mask)
  then show ?thesis by (simp add: mask_eq_exp_minus_1)
qed

lemma mid4: "drop_bit 5 (i::int) AND 15 = (i div 32) mod 16"
proof -
  have "drop_bit 5 i AND mask 4 = (i div 2 ^ 5) mod 2 ^ 4"
    by (simp add: take_bit_eq_mod drop_bit_eq_div flip: take_bit_eq_mask)
  then show ?thesis by (simp add: mask_eq_exp_minus_1)
qed

lemma top7: "drop_bit 9 (i::int) AND 127 = (i div 512) mod 128"
proof -
  have "drop_bit 9 i AND mask 7 = (i div 2 ^ 9) mod 2 ^ 7"
    by (simp add: take_bit_eq_mod drop_bit_eq_div flip: take_bit_eq_mask)
  then show ?thesis by (simp add: mask_eq_exp_minus_1)
qed

lemma decode_date_arith:
  "decode_date i =
     (case mk_date ((i div 512) mod 128 + 2000) ((i div 32) mod 16) (i mod 32) of
        Inl e \<Rightarrow> Inl e | Inr dt \<Rightarrow> Inr (Some dt))"
  by (simp add: decode_date_def Let_def range_tests_false low5 mid4 top7)




lemma packed_fields:
  fixes y m d :: int
  assumes "0 \<le> y" "y \<le> 99" "1 \<le> m" "m \<le> 12" "1 \<le> d" "d \<le> 31"
  shows "(d + m * 32 + y * 512) mod 32 = d"
    and "((d + m * 32 + y * 512) div 32) mod 16 = m"
    and "((d + m * 32 + y * 512) div 512) mod 128 = y"
proof -
  have i: "d + m * 32 + y * 512 = d + 32 * (m + 16 * y)" by simp
  have j: "d + m * 32 + y * 512 = (d + m * 32) + 512 * y" by simp
  have k: "m + 16 * y = m + 16 * y" by simp
  have "(d + 32 * (m + 16 * y)) mod 32 = d mod 32" by (rule mod_mult_self2)
  also have "d mod 32 = d" using assms by simp
  finally show "(d + m * 32 + y * 512) mod 32 = d" by (simp only: i)
  have "(d + 32 * (m + 16 * y)) div 32 = (m + 16 * y) + d div 32"
    by (rule div_mult_self2) simp
  also have "d div 32 = 0" using assms by simp
  finally have q: "(d + m * 32 + y * 512) div 32 = m + 16 * y" by (simp only: i add_0_right)
  have "(m + 16 * y) mod 16 = m mod 16" by (rule mod_mult_self2)
  also have "m mod 16 = m" using assms by simp
  finally show "((d + m * 32 + y * 512) div 32) mod 16 = m" by (simp only: q)
  have "((d + m * 32) + 512 * y) div 512 = y + (d + m * 32) div 512"
    by (rule div_mult_self2) simp
  also have "(d + m * 32) div 512 = 0" using assms by simp
  finally have r: "(d + m * 32 + y * 512) div 512 = y" by (simp only: j add_0_right)
  show "((d + m * 32 + y * 512) div 512) mod 128 = y"
    using assms by (simp only: r) simp
qed


text \<open>
  Claim C4 (date codec round trip).  A \<^verbatim>\<open>date\<close> object with its year in 2000..2099 (its
  month is then in 1..12 and its day in 1..31) is given back by decoding its packed
  encoding; the null date is encoded as 0; and decoding \<open>0xFFFF\<close> gives no date: its
  fields are year 2127, month 15 and day 31, which the \<^verbatim>\<open>date\<close> constructor refuses with
  \<^verbatim>\<open>ValueError\<close>.
\<close>

theorem date_codec_round_trip:
  "(is_date dt \<and> 2000 \<le> year dt \<and> year dt \<le> 2099 \<and> 1 \<le> month dt \<and> month dt \<le> 12
      \<and> 1 \<le> day dt \<and> day dt \<le> 31
      \<longrightarrow> decode_date (encode_date dt) = Inr (Some dt))
   \<and> encode_date NULL_DATE = 0
   \<and> decode_date 0xFFFF = Inl ValueError"
proof (intro conjI impI)
  assume a: "is_date dt \<and> 2000 \<le> year dt \<and> year dt \<le> 2099 \<and> 1 \<le> month dt \<and> month dt \<le> 12
      \<and> 1 \<le> day dt \<and> day dt \<le> 31"
  then have ne: "dt \<noteq> NULL_DATE" by (auto simp: NULL_DATE_def)
  have f: "0 \<le> year dt - 2000" "year dt - 2000 \<le> 99" "1 \<le> month dt" "month dt \<le> 12"
    "1 \<le> day dt" "day dt \<le> 31" using a by simp_all
  have e: "encode_date dt = day dt + month dt * 32 + (year dt - 2000) * 512"
    using ne by (simp add: encode_date_def)
  have "mk_date (year dt) (month dt) (day dt) = Inr dt" using a by (simp add: is_date_def)
  then show "decode_date (encode_date dt) = Inr (Some dt)"
    unfolding decode_date_arith e packed_fields [OF f] by simp
next
  show "encode_date NULL_DATE = 0" by (simp add: encode_date_def)
next
  show "decode_date 0xFFFF = Inl ValueError"
    by (simp add: decode_date_arith mk_date_def)
qed

theorem date_codec_round_trip_witness:
  "is_date \<lparr>year = 2024, month = 2, day = 29\<rparr>
   \<and> encode_date \<lparr>year = 2024, month = 2, day = 29\<rparr> = 12381
   \<and> decode_date 12381 = Inr (Some \<lparr>year = 2024, month = 2, day = 29\<rparr>)"
proof -
  have d: "is_date \<lparr>year = 2024, month = 2, day = 29\<rparr>"
    by (simp add: is_date_def mk_date_def days_in_month_def is_leap_def)
  have e: "encode_date \<lparr>year = 2024, month = 2, day = 29\<rparr> = 12381"
    by (simp add: encode_date_def NULL_DATE_def)
  from date_codec_round_trip [of "\<lparr>year = 2024, month = 2, day = 29\<rparr>"] d e
  show ?thesis by simp
qed

section \<open>The wake-up handshake\<close>

lemma wake_up_loop_Suc:
  "wake_up_loop (Suc n) p =
     (if take 2 (rx p) = [LF, CR]
      then (True, \<lparr>rx = drop 2 (rx p), tx = tx p @ [LF]\<rparr>)
      else wake_up_loop n (\<lparr>rx = drop 2 (rx p), tx = tx p @ [LF]\<rparr>))"
  by (cases p) (simp add: comm_write_def comm_read_def Let_def)

lemma wake_up_loop_fail:
  "(\<forall>k<n. take 2 (drop (2 * k) (rx p)) \<noteq> [LF, CR]) \<Longrightarrow>
   wake_up_loop n p = (False, \<lparr>rx = drop (2 * n) (rx p), tx = tx p @ replicate n LF\<rparr>)"
proof (induction n arbitrary: p)
  case 0
  then show ?case by simp
next
  case (Suc n)
  let ?q = "\<lparr>rx = drop 2 (rx p), tx = tx p @ [LF]\<rparr>"
  from Suc.prems have first: "take 2 (rx p) \<noteq> [LF, CR]" by force
  have "\<forall>k<n. take 2 (drop (2 * k) (rx ?q)) \<noteq> [LF, CR]"
  proof (intro allI impI)
    fix k assume "k < n"
    then have "take 2 (drop (2 * Suc k) (rx p)) \<noteq> [LF, CR]" using Suc.prems by blast
    then show "take 2 (drop (2 * k) (rx ?q)) \<noteq> [LF, CR]" by (simp add: add.commute)
  qed
  from Suc.IH [OF this] first show ?case
    by (simp only: wake_up_loop_Suc) (simp add: replicate_app_Cons_same add.commute)
qed

lemma wake_up_loop_success:
  "k < n \<Longrightarrow> take 2 (drop (2 * k) (rx p)) = [LF, CR] \<Longrightarrow>
   (\<forall>i<k. take 2 (drop (2 * i) (rx p)) \<noteq> [LF, CR]) \<Longrightarrow>
   wake_up_loop n p =
     (True, \<lparr>rx = drop (2 * (k + 1)) (rx p), tx = tx p @ replicate (k + 1) LF\<rparr>)"
proof (induction k arbitrary: n p)
  case 0
  then obtain n' where n: "n = Suc n'" by (cases n) auto
  from 0 show ?case by (simp only: n wake_up_loop_Suc) simp
next
  case (Suc k)
  then obtain n' where n: "n = Suc n'" by (cases n) auto
  let ?q = "\<lparr>rx = drop 2 (rx p), tx = tx p @ [LF]\<rparr>"
  from Suc.prems(3) have first: "take 2 (rx p) \<noteq> [LF, CR]" by force
  have a: "k < n'" using Suc.prems(1) n by simp
  have b: "take 2 (drop (2 * k) (rx ?q)) = [LF, CR]"
    using Suc.prems(2) by (simp add: add.commute)
  have c: "\<forall>i<k. take 2 (drop (2 * i) (rx ?q)) \<noteq> [LF, CR]"
  proof (intro allI impI)
    fix i assume "i < k"
    then have "take 2 (drop (2 * Suc i) (rx p)) \<noteq> [LF, CR]" using Suc.prems(3) by auto
    then show "take 2 (drop (2 * i) (rx ?q)) \<noteq> [LF, CR]" by (simp add: add.commute)
  qed
  from Suc.IH [OF a b c] first show ?case
    by (simp only: n wake_up_loop_Suc) (simp add: replicate_app_Cons_same add.commute)
qed

text \<open>
  Claim C8, as the code has it.  With \<open>n\<close> the configured number of attempts (3 by
  default), each attempt writes the single byte LF (\<open>0x0A\<close>) and reads the next two bytes.
  When attempt \<open>k < n\<close> is the first whose two bytes are LF CR (\<open>0x0A 0x0D\<close>),
  \<^verbatim>\<open>wake_up\<close> returns \<^verbatim>\<open>True\<close> at once, after \<open>k + 1\<close> attempts: it has written
  \<open>k + 1\<close> LF bytes and read \<open>2 (k + 1)\<close> bytes.  When none of the \<open>n\<close> attempts reads
  LF CR, it has made exactly \<open>n\<close> attempts and returns \<^verbatim>\<open>False\<close>: an ordinary result,
  no error is raised.
\<close>

theorem wake_up_attempts:
  "(\<forall>k < nat (retries_attempt cfg).
      take 2 (drop (2 * k) (rx p)) = [LF, CR] \<and>
      (\<forall>i<k. take 2 (drop (2 * i) (rx p)) \<noteq> [LF, CR]) \<longrightarrow>
      wake_up cfg p =
        (True, \<lparr>rx = drop (2 * (k + 1)) (rx p), tx = tx p @ replicate (k + 1) LF\<rparr>))
   \<and> ((\<forall>k < nat (retries_attempt cfg). take 2 (drop (2 * k) (rx p)) \<noteq> [LF, CR]) \<longrightarrow>
      wake_up cfg p =
        (False, \<lparr>rx = drop (2 * nat (retries_attempt cfg)) (rx p),
                  tx = tx p @ replicate (nat (retries_attempt cfg)) LF\<rparr>))
   \<and> retries_attempt default_config = 3 \<and> LF = 0x0A \<and> CR = 0x0D"
proof (intro conjI allI impI)
  fix k
  assume "k < nat (retries_attempt cfg)"
    and "take 2 (drop (2 * k) (rx p)) = [LF, CR] \<and>
      (\<forall>i<k. take 2 (drop (2 * i) (rx p)) \<noteq> [LF, CR])"
  then show "wake_up cfg p =
        (True, \<lparr>rx = drop (2 * (k + 1)) (rx p), tx = tx p @ replicate (k + 1) LF\<rparr>)"
    unfolding wake_up_def using wake_up_loop_success [of k "nat (retries_attempt cfg)" p] by blast
next
  assume "\<forall>k < nat (retries_attempt cfg). take 2 (drop (2 * k) (rx p)) \<noteq> [LF, CR]"
  then show "wake_up cfg p =
        (False, \<lparr>rx = drop (2 * nat (retries_attempt cfg)) (rx p),
                  tx = tx p @ replicate (nat (retries_attempt cfg)) LF\<rparr>)"
    unfolding wake_up_def by (rule wake_up_loop_fail)
qed (simp_all add: default_config_def RETRIES_def LF_def CR_def)

theorem wake_up_attempts_witness:
  "wake_up default_config \<lparr>rx = [0x41, 0x42, 0x0A, 0x0D, 0x06], tx = []\<rparr>
     = (True, \<lparr>rx = [0x06], tx = [0x0A, 0x0A]\<rparr>)
   \<and> wake_up default_config \<lparr>rx = [0x41, 0x42, 0x43, 0x44, 0x0A, 0x0A, 0x0D], tx = []\<rparr>
     = (False, \<lparr>rx = [0x0D], tx = [0x0A, 0x0A, 0x0A]\<rparr>)"
proof -
  have n: "nat (retries_attempt default_config) = 3"
    by (simp add: default_config_def RETRIES_def)
  have three: "(\<forall>k<3. P k) \<longleftrightarrow> P 0 \<and> P 1 \<and> P (2::nat)" for P
    by (auto simp: numeral_3_eq_3 numeral_2_eq_2 less_Suc_eq)
  have one: "(\<forall>i<Suc 0. P i) \<longleftrightarrow> P (0::nat)" for P
    by auto
  have r2: "replicate 2 x = [x, x]" for x :: byte
    by (simp add: numeral_2_eq_2)
  have r3: "replicate 3 x = [x, x, x]" for x :: byte
    by (simp add: numeral_3_eq_3)
  let ?p = "\<lparr>rx = [0x41, 0x42, 0x0A, 0x0D, 0x06], tx = []\<rparr> :: port"
  let ?q = "\<lparr>rx = [0x41, 0x42, 0x43, 0x44, 0x0A, 0x0A, 0x0D], tx = []\<rparr> :: port"
  have a: "wake_up default_config ?p = (True, \<lparr>rx = [0x06], tx = [0x0A, 0x0A]\<rparr>)"
    using wake_up_attempts [of default_config ?p, THEN conjunct1, rule_format, of 1]
    by (simp add: n one r2 LF_def CR_def)
  have b: "wake_up default_config ?q = (False, \<lparr>rx = [0x0D], tx = [0x0A, 0x0A, 0x0A]\<rparr>)"
    using wake_up_attempts [of default_config ?q, THEN conjunct2, THEN conjunct1]
    by (simp add: n three r3 LF_def CR_def)
  from a b show ?thesis by simp
qed

text \<open>
  The claim as stated fails: \<^verbatim>\<open>wake_up\<close> has no path that raises.  When the console
  answers each of the three attempts of the default configuration with two bytes that are
  not LF CR, \<^verbatim>\<open>wake_up\<close> ends normally with the value \<^verbatim>\<open>False\<close>, having written three
  LF bytes and read six bytes.
\<close>

theorem wake_up_exhausted_returns_False:
  "wake_up default_config \<lparr>rx = [0x3F, 0x3F, 0x3F, 0x3F, 0x3F, 0x3F], tx = []\<rparr> =
     (False, \<lparr>rx = [], tx = [0x0A, 0x0A, 0x0A]\<rparr>)"
proof -
  have n: "nat (retries_attempt default_config) = Suc (Suc (Suc 0))"
    by (simp add: default_config_def RETRIES_def numeral_3_eq_3)
  show ?thesis
    unfolding wake_up_def n
    by (simp add: comm_read_def comm_write_def LF_def CR_def)
qed

section \<open>Reading the time\<close>

lemma calculate_crc_total: "\<exists>c. calculate_crc B = Inr c"
  using crc_loop_total [of 0 B] by (auto simp: calculate_crc_def)

lemma get_time_unfold:
  assumes "rx p = a # b0 # b1 # b2 # b3 # b4 # b5 # c0 # c1 # rest"
    and "calculate_crc [b0, b1, b2, b3, b4, b5] = Inr c"
  shows "get_time p =
     (if be_u16 c0 c1 \<noteq> c
      then Inr (None, \<lparr>rx = rest, tx = tx p @ ascii ''GETTIME'' @ [LF]\<rparr>)
      else (case mk_datetime (1900 + uint b5) (uint b4) (uint b3) (uint b2) (uint b1) (uint b0) of
              Inl e \<Rightarrow> Inl e
            | Inr dt \<Rightarrow> Inr (Some dt, \<lparr>rx = rest, tx = tx p @ ascii ''GETTIME'' @ [LF]\<rparr>)))"
  using assms
  by (cases p) (simp add: get_time_def wait_for_ack_def comm_read_def comm_write_def Let_def
      split: sum.splits)

lemma crc_gettime_payload: "calculate_crc [30, 45, 14, 12, 6, 124] = Inr 29039"
  by code_simp

lemma mk_datetime_fields:
  "mk_datetime y mo d h mi s = Inr dt \<Longrightarrow>
   dt = \<lparr>dt_date = \<lparr>year = y, month = mo, day = d\<rparr>,
         dt_time = \<lparr>hour = h, minute = mi, second = s\<rparr>\<rparr>"
  by (auto simp: mk_datetime_def mk_date_def split: sum.splits if_splits)


text \<open>
  Claim C6 (reading the time).  Let the console answer \<^verbatim>\<open>GETTIME\<close> with one byte in the
  place of the ACK, six payload bytes and two CRC bytes.  When the CRC computed over the
  payload equals the received big-endian CRC, \<^verbatim>\<open>get_time\<close> returns what the
  \<^verbatim>\<open>datetime\<close> constructor makes of the payload read as second, minute, hour, day,
  month and year since 1900; a date-time it returns has exactly these fields, its year
  being 1900 plus the sixth byte.  The payload 30, 45, 14, 12, 6, 124 with its CRC
  \<open>0x716F\<close> gives 2024-06-12 14:45:30.  When the CRCs differ, \<^verbatim>\<open>get_time\<close> returns
  \<^verbatim>\<open>None\<close>.
\<close>

theorem get_time_decodes:
  "(rx p = a # b0 # b1 # b2 # b3 # b4 # b5 # c0 # c1 # rest \<and>
    calculate_crc [b0, b1, b2, b3, b4, b5] = Inr (be_u16 c0 c1) \<longrightarrow>
      get_time p =
        (case mk_datetime (1900 + uint b5) (uint b4) (uint b3) (uint b2) (uint b1) (uint b0) of
           Inl e \<Rightarrow> Inl e
         | Inr dt \<Rightarrow> Inr (Some dt, \<lparr>rx = rest, tx = tx p @ ascii ''GETTIME'' @ [LF]\<rparr>))
      \<and> (\<forall>dt p'. get_time p = Inr (Some dt, p') \<longrightarrow>
             dt = \<lparr>dt_date = \<lparr>year = 1900 + uint b5, month = uint b4, day = uint b3\<rparr>,
                   dt_time = \<lparr>hour = uint b2, minute = uint b1, second = uint b0\<rparr>\<rparr>))
   \<and> (rx p = a # b0 # b1 # b2 # b3 # b4 # b5 # c0 # c1 # rest \<and>
      calculate_crc [b0, b1, b2, b3, b4, b5] \<noteq> Inr (be_u16 c0 c1) \<longrightarrow>
      get_time p = Inr (None, \<lparr>rx = rest, tx = tx p @ ascii ''GETTIME'' @ [LF]\<rparr>))
   \<and> get_time \<lparr>rx = [0x06, 30, 45, 14, 12, 6, 124, 0x71, 0x6F], tx = []\<rparr> =
       Inr (Some \<lparr>dt_date = \<lparr>year = 2024, month = 6, day = 12\<rparr>,
                  dt_time = \<lparr>hour = 14, minute = 45, second = 30\<rparr>\<rparr>,
            \<lparr>rx = [], tx = ascii ''GETTIME'' @ [LF]\<rparr>)"
proof (intro conjI impI)
  assume h: "rx p = a # b0 # b1 # b2 # b3 # b4 # b5 # c0 # c1 # rest \<and>
    calculate_crc [b0, b1, b2, b3, b4, b5] = Inr (be_u16 c0 c1)"
  from get_time_unfold [of p a b0 b1 b2 b3 b4 b5 c0 c1 rest "be_u16 c0 c1"] h
  show g: "get_time p =
        (case mk_datetime (1900 + uint b5) (uint b4) (uint b3) (uint b2) (uint b1) (uint b0) of
           Inl e \<Rightarrow> Inl e
         | Inr dt \<Rightarrow> Inr (Some dt, \<lparr>rx = rest, tx = tx p @ ascii ''GETTIME'' @ [LF]\<rparr>))"
    by simp
  show "\<forall>dt p'. get_time p = Inr (Some dt, p') \<longrightarrow>
             dt = \<lparr>dt_date = \<lparr>year = 1900 + uint b5, month = uint b4, day = uint b3\<rparr>,
                   dt_time = \<lparr>hour = uint b2, minute = uint b1, second = uint b0\<rparr>\<rparr>"
    unfolding g by (auto split: sum.splits dest: mk_datetime_fields)
next
  assume h: "rx p = a # b0 # b1 # b2 # b3 # b4 # b5 # c0 # c1 # rest \<and>
      calculate_crc [b0, b1, b2, b3, b4, b5] \<noteq> Inr (be_u16 c0 c1)"
  obtain c where c: "calculate_crc [b0, b1, b2, b3, b4, b5] = Inr c"
    using calculate_crc_total by blast
  with h have "be_u16 c0 c1 \<noteq> c" by auto
  with get_time_unfold [of p a b0 b1 b2 b3 b4 b5 c0 c1 rest c] h c
  show "get_time p = Inr (None, \<lparr>rx = rest, tx = tx p @ ascii ''GETTIME'' @ [LF]\<rparr>)"
    by simp
next
  let ?p = "\<lparr>rx = [0x06, 30, 45, 14, 12, 6, 124, 0x71, 0x6F], tx = []\<rparr> :: port"
  have "be_u16 0x71 0x6F = 29039" by (simp add: be_u16_def)
  with get_time_unfold [of ?p "0x06" 30 45 14 12 6 124 "0x71" "0x6F" "[]" 29039]
    crc_gettime_payload
  show "get_time ?p =
       Inr (Some \<lparr>dt_date = \<lparr>year = 2024, month = 6, day = 12\<rparr>,
                  dt_time = \<lparr>hour = 14, minute = 45, second = 30\<rparr>\<rparr>,
            \<lparr>rx = [], tx = ascii ''GETTIME'' @ [LF]\<rparr>)"
    by (simp add: mk_datetime_def mk_date_def days_in_month_def)
qed

theorem get_time_decodes_witness:
  "get_time \<lparr>rx = [0x21, 0, 30, 8, 1, 2, 100, 0x33, 0x41, 0x0A], tx = []\<rparr> =
       Inr (Some \<lparr>dt_date = \<lparr>year = 2000, month = 2, day = 1\<rparr>,
                  dt_time = \<lparr>hour = 8, minute = 30, second = 0\<rparr>\<rparr>,
            \<lparr>rx = [0x0A], tx = ascii ''GETTIME'' @ [LF]\<rparr>)
   \<and> get_time \<lparr>rx = [0x06, 0, 30, 8, 1, 2, 100, 0x33, 0x42, 0x0A], tx = []\<rparr> =
       Inr (None, \<lparr>rx = [0x0A], tx = ascii ''GETTIME'' @ [LF]\<rparr>)"
proof -
  have c: "calculate_crc [0, 30, 8, 1, 2, 100] = Inr 13121" by code_simp
  have b: "be_u16 0x33 0x41 = 13121" "be_u16 0x33 0x42 = 13122" by (simp_all add: be_u16_def)
  let ?p = "\<lparr>rx = [0x21, 0, 30, 8, 1, 2, 100, 0x33, 0x41, 0x0A], tx = []\<rparr> :: port"
  let ?q = "\<lparr>rx = [0x06, 0, 30, 8, 1, 2, 100, 0x33, 0x42, 0x0A], tx = []\<rparr> :: port"
  have hp: "rx ?p = 0x21 # 0 # 30 # 8 # 1 # 2 # 100 # 0x33 # 0x41 # [0x0A] \<and>
    calculate_crc [0, 30, 8, 1, 2, 100] = Inr (be_u16 0x33 0x41)"
    by (simp add: c b)
  have hq: "rx ?q = 0x06 # 0 # 30 # 8 # 1 # 2 # 100 # 0x33 # 0x42 # [0x0A] \<and>
    calculate_crc [0, 30, 8, 1, 2, 100] \<noteq> Inr (be_u16 0x33 0x42)"
    by (simp add: c b)
  have m: "mk_datetime (1900 + uint (100 :: byte)) (uint (2 :: byte)) (uint (1 :: byte))
             (uint (8 :: byte)) (uint (30 :: byte)) (uint (0 :: byte)) =
           Inr \<lparr>dt_date = \<lparr>year = 2000, month = 2, day = 1\<rparr>,
                dt_time = \<lparr>hour = 8, minute = 30, second = 0\<rparr>\<rparr>"
    by (simp add: mk_datetime_def mk_date_def days_in_month_def is_leap_def)
  have 1: "get_time ?p =
       Inr (Some \<lparr>dt_date = \<lparr>year = 2000, month = 2, day = 1\<rparr>,
                  dt_time = \<lparr>hour = 8, minute = 30, second = 0\<rparr>\<rparr>,
            \<lparr>rx = [0x0A], tx = ascii ''GETTIME'' @ [LF]\<rparr>)"
    using get_time_decodes [of ?p "0x21" 0 30 8 1 2 100 "0x33" "0x41" "[0x0A]",
        THEN conjunct1, THEN mp, OF hp, THEN conjunct1]
    by (simp only: m) simp
  have 2: "get_time ?q = Inr (None, \<lparr>rx = [0x0A], tx = ascii ''GETTIME'' @ [LF]\<rparr>)"
    using get_time_decodes [of ?q "0x06" 0 30 8 1 2 100 "0x33" "0x42" "[0x0A]",
        THEN conjunct2, THEN conjunct1, THEN mp, OF hq]
    by simp
  from 1 2 show ?thesis by simp
qed

section \<open>The bytes read where an ACK is expected\<close>

lemma wait_for_ack_Cons:
  "wait_for_ack \<lparr>rx = a # r, tx = t\<rparr> = Inr (uint ACK = sint a, \<lparr>rx = r, tx = t\<rparr>)"
  by (simp add: wait_for_ack_def comm_read_def)

lemma wait_for_ack_Nil:
  "wait_for_ack \<lparr>rx = [], tx = t\<rparr> = Inl StructError"
  by (simp add: wait_for_ack_def comm_read_def)

lemma comm_write_simp: "comm_write bs \<lparr>rx = r, tx = t\<rparr> = \<lparr>rx = r, tx = t @ bs\<rparr>"
  by (simp add: comm_write_def)

lemma get_time_ack_ignored:
  "get_time \<lparr>rx = a # r, tx = t\<rparr> = get_time \<lparr>rx = ACK # r, tx = t\<rparr>"
  by (simp add: get_time_def comm_write_simp wait_for_ack_Cons Let_def)

lemma set_time_ack_ignored:
  "set_time dt \<lparr>rx = a # b # r, tx = t\<rparr> = set_time dt \<lparr>rx = ACK # ACK # r, tx = t\<rparr>"
  by (simp add: set_time_def comm_write_simp wait_for_ack_Cons Let_def split: sum.splits)

lemma get_archive_data_ack_ignored:
  "get_archive_data cfg since \<lparr>rx = a # b # r, tx = t\<rparr> =
   get_archive_data cfg since \<lparr>rx = ACK # ACK # r, tx = t\<rparr>"
  by (simp add: get_archive_data_def comm_write_simp wait_for_ack_Cons Let_def
      split: sum.splits)


text \<open>
  Claim C7, as the code has it.  \<^verbatim>\<open>wait_for_ack\<close> reads one byte and returns whether it
  is ACK, and \<^verbatim>\<open>get_time\<close>, \<^verbatim>\<open>set_time\<close> and \<^verbatim>\<open>get_archive_data\<close> discard that result.
  So for each of the three operations the byte read where an ACK is expected is consumed
  and its value is ignored: whether it is ACK (\<open>0x06\<close>), NAK (\<open>0x21\<close>), CANCEL (\<open>0x18\<close>) or
  any other byte, the operation continues the exchange with the same reads and writes and
  gives the same result.  When no byte at all arrives where the first ACK is expected,
  the operation fails with a \<^verbatim>\<open>struct.error\<close>.
\<close>

theorem ack_byte_value_ignored:
  "get_time \<lparr>rx = a # r, tx = t\<rparr> = get_time \<lparr>rx = ACK # r, tx = t\<rparr>
   \<and> set_time dt \<lparr>rx = a # b # r, tx = t\<rparr> = set_time dt \<lparr>rx = ACK # ACK # r, tx = t\<rparr>
   \<and> get_archive_data cfg since \<lparr>rx = a # b # r, tx = t\<rparr> =
       get_archive_data cfg since \<lparr>rx = ACK # ACK # r, tx = t\<rparr>
   \<and> get_time \<lparr>rx = [], tx = t\<rparr> = Inl StructError
   \<and> set_time dt \<lparr>rx = [], tx = t\<rparr> = Inl StructError
   \<and> get_archive_data cfg since \<lparr>rx = [], tx = t\<rparr> = Inl StructError"
proof (intro conjI)
  show "get_time \<lparr>rx = a # r, tx = t\<rparr> = get_time \<lparr>rx = ACK # r, tx = t\<rparr>"
    by (rule get_time_ack_ignored)
  show "set_time dt \<lparr>rx = a # b # r, tx = t\<rparr> = set_time dt \<lparr>rx = ACK # ACK # r, tx = t\<rparr>"
    by (rule set_time_ack_ignored)
  show "get_archive_data cfg since \<lparr>rx = a # b # r, tx = t\<rparr> =
       get_archive_data cfg since \<lparr>rx = ACK # ACK # r, tx = t\<rparr>"
    by (rule get_archive_data_ack_ignored)
  show "get_time \<lparr>rx = [], tx = t\<rparr> = Inl StructError"
    by (simp add: get_time_def comm_write_simp wait_for_ack_Nil Let_def)
  show "set_time dt \<lparr>rx = [], tx = t\<rparr> = Inl StructError"
    by (simp add: set_time_def comm_write_simp wait_for_ack_Nil Let_def)
  show "get_archive_data cfg since \<lparr>rx = [], tx = t\<rparr> = Inl StructError"
    by (simp add: get_archive_data_def comm_write_simp wait_for_ack_Nil Let_def)
qed

text \<open>
  The claim as stated fails: with NAK in the place of the ACK, \<^verbatim>\<open>get_time\<close> goes on to
  read the payload and its CRC and returns the time.
\<close>

theorem get_time_after_nak:
  "get_time \<lparr>rx = [NAK, 30, 45, 14, 12, 6, 124, 0x71, 0x6F], tx = []\<rparr> =
     Inr (Some \<lparr>dt_date = \<lparr>year = 2024, month = 6, day = 12\<rparr>,
                dt_time = \<lparr>hour = 14, minute = 45, second = 30\<rparr>\<rparr>,
          \<lparr>rx = [], tx = ascii ''GETTIME'' @ [LF]\<rparr>)"
proof -
  let ?p = "\<lparr>rx = [NAK, 30, 45, 14, 12, 6, 124, 0x71, 0x6F], tx = []\<rparr> :: port"
  have "be_u16 0x71 0x6F = 29039" by (simp add: be_u16_def)
  with get_time_unfold [of ?p NAK 30 45 14 12 6 124 "0x71" "0x6F" "[]" 29039]
    crc_gettime_payload
  show ?thesis
    by (simp add: mk_datetime_def mk_date_def days_in_month_def)
qed

section \<open>The validity predicate of a slot\<close>

lemma unpack_HH_Inr:
  "unpack_HH bs = Inr (v, w) \<longleftrightarrow> (\<exists>a b c d. bs = [a, b, c, d] \<and> v = le_u16 a b \<and> w = le_u16 c d)"
  by (cases bs rule: unpack_HH.cases) auto

lemma is_valid_record_words:
  assumes "take 4 s = [a, b, c, d]"
  shows "is_valid_record s =
     (if le_u16 a b = 65535 \<or> le_u16 c d = 65535 then Inr False
      else (case decode_date (le_u16 a b) of
              Inl e \<Rightarrow> Inl e
            | Inr dt \<Rightarrow> (case decode_time (le_u16 c d) of Inl e \<Rightarrow> Inl e | Inr tm \<Rightarrow> Inr True)))"
  using assms
  by (auto simp: is_valid_record_def decode_date_arith decode_time_eq
      split: sum.splits option.splits)

text \<open>
  The range tests of \<^verbatim>\<open>_decode_date\<close> and \<^verbatim>\<open>_decode_time\<close> never hold, so a slot is
  reported invalid only for a sentinel word.
\<close>

lemma is_valid_record_False_iff:
  "is_valid_record s = Inr False \<longleftrightarrow>
     (\<exists>a b c d. take 4 s = [a, b, c, d] \<and> (le_u16 a b = 65535 \<or> le_u16 c d = 65535))"
proof
  assume f: "is_valid_record s = Inr False"
  then obtain v w where u: "unpack_HH (take 4 s) = Inr (v, w)"
    by (auto simp: is_valid_record_def split: sum.splits)
  then obtain a b c d where t: "take 4 s = [a, b, c, d]"
    by (auto simp: unpack_HH_Inr)
  from f show "\<exists>a b c d. take 4 s = [a, b, c, d] \<and> (le_u16 a b = 65535 \<or> le_u16 c d = 65535)"
    unfolding is_valid_record_words [OF t] using t
    by (auto split: if_splits sum.splits)
next
  assume "\<exists>a b c d. take 4 s = [a, b, c, d] \<and> (le_u16 a b = 65535 \<or> le_u16 c d = 65535)"
  then show "is_valid_record s = Inr False"
    by (auto simp: is_valid_record_words)
qed

text \<open>
  Claim C2 on the code.  The slot \<open>month13_slot\<close> has no sentinel word and its decoded
  month is 13; the slot \<open>minute99_slot\<close> has no sentinel word and its decoded minute is 99.
  The validity predicate does not return \<^verbatim>\<open>False\<close> for them: the range tests let the
  fields through to the \<^verbatim>\<open>date\<close> and \<^verbatim>\<open>time\<close> constructors, which raise
  \<^verbatim>\<open>ValueError\<close>.
\<close>

theorem is_valid_record_out_of_range:
  "is_valid_record month13_slot = Inl ValueError
   \<and> is_valid_record minute99_slot = Inl ValueError"
proof
  have "take 4 month13_slot = [0xA1, 0x2D, 0x00, 0x00]" by (simp add: month13_slot_def)
  from is_valid_record_words [OF this]
  show "is_valid_record month13_slot = Inl ValueError"
    by (simp add: le_u16_def decode_date_arith mk_date_def)
  have "take 4 minute99_slot = [0x21, 0x2C, 0x13, 0x05]" by (simp add: minute99_slot_def)
  from is_valid_record_words [OF this]
  show "is_valid_record minute99_slot = Inl ValueError"
    by (simp add: le_u16_def decode_date_arith decode_time_eq mk_date_def mk_time_def
        days_in_month_def)
qed

section \<open>Decoding a slot into a record\<close>

lemma convert_temp_above_absolute_zero: "convert_temp cfg v + 273.75 \<noteq> 0"
proof
  assume z: "convert_temp cfg v + 273.75 = 0"
  show False
  proof (cases "temperature_measurements_unit cfg = F")
    case True
    with z have "real_of_int v / 10 + 273.75 = 0" by (simp add: convert_temp_def)
    then have "real_of_int (2 * v) = real_of_int (- 5475)" by simp
    then have "2 * v = - 5475" by (simp only: of_int_eq_iff)
    then show False by presburger
  next
    case False
    with z have "5 / 9 * (real_of_int v / 10 - 32) + 273.75 = 0" by (simp add: convert_temp_def)
    then have "2 * real_of_int v = - 9215" by (simp add: field_simps)
    then have "real_of_int (2 * v) = real_of_int (- 9215)" by simp
    then have "2 * v = - 9215" by (simp only: of_int_eq_iff)
    then show False by presburger
  qed
qed

lemma barometric_formula_converted:
  "barometric_formula (convert_temp cfg v) b h =
     Inr (b * exp ((- G0 * M_AIR * h) / (RS * (convert_temp cfg v + 273.75))))"
  using convert_temp_above_absolute_zero [of cfg v]
  by (simp add: barometric_formula_def Let_def RS_def)

lemma convert_wind_dir_total: "\<exists>d. convert_wind_dir cfg wv = Inr d"
proof (cases "0 \<le> wv \<and> wv \<le> 15")
  case True
  then have "wv = 0 \<or> wv = 1 \<or> wv = 2 \<or> wv = 3 \<or> wv = 4 \<or> wv = 5 \<or> wv = 6 \<or> wv = 7 \<or>
    wv = 8 \<or> wv = 9 \<or> wv = 10 \<or> wv = 11 \<or> wv = 12 \<or> wv = 13 \<or> wv = 14 \<or> wv = 15"
    by presburger
  then show ?thesis
    by (elim disjE)
      (simp_all add: convert_wind_dir_def list_get_def WIND_DIRECTIONS_def
        WIND_DIRECTIONS_DEG_MAP_def)
next
  case False
  then show ?thesis by (auto simp: convert_wind_dir_def)
qed

lemma decode_date_year: "decode_date i = Inr (Some dt) \<Longrightarrow> 2000 \<le> year dt"
  by (auto simp: decode_date_arith mk_date_def split: sum.splits if_splits)

text \<open>
  A slot of 52 bytes whose packed date and time decode is decoded into a record; only
  the date and the time can make the decoding fail.
\<close>

lemma create_archive_data_record:
  assumes "length s = 52"
    and "decode_date (u16_at s 0) = Inr (Some dt)"
    and "decode_time (u16_at s 2) = Inr tm"
  shows "\<exists>dh dp.
     (if u8_at s 26 = 255 then Inr None else convert_wind_dir cfg (u8_at s 26)) = Inr dh \<and>
     (if u8_at s 27 = 255 then Inr None else convert_wind_dir cfg (u8_at s 27)) = Inr dp \<and>
     create_archive_data_from_bytes cfg s =
     Inr \<lparr>record_date = Some dt,
          record_time = tm,
          out_temp = (if s16_at s 4 = 32767 then None else Some (convert_temp cfg (s16_at s 4))),
          low_out_temp = (if s16_at s 8 = 32767 then None else Some (convert_temp cfg (s16_at s 8))),
          hi_out_temp = (if s16_at s 6 = - 32768 then None else Some (convert_temp cfg (s16_at s 6))),
          outside_humidity = (if u8_at s 23 = 255 then None else Some (u8_at s 23)),
          barometer =
            (if u16_at s 14 = 0 then None else Some (convert_air_pressure cfg (u16_at s 14))),
          barometer_sea =
            (if u16_at s 14 = 0 \<or> s16_at s 20 = 32767 then None
             else Some (convert_air_pressure cfg (u16_at s 14) *
                    exp ((- G0 * M_AIR * (0 - altitude cfg)) /
                         (RS * (convert_temp cfg (s16_at s 20) + 273.75))))),
          avg_wind_speed =
            (if u8_at s 24 = 255 then None else Some (convert_wind_speed cfg (u8_at s 24))),
          direction_prev_wind = dp,
          high_wind_speed =
            (if u8_at s 25 = 0 then None else Some (convert_wind_speed cfg (u8_at s 25))),
          direction_hi_wind = dh,
          rainfall = convert_rain cfg (u16_at s 10),
          high_rain_rate = convert_rain cfg (u16_at s 12),
          solar_radiation = (if u16_at s 16 = 32767 then None else Some (u16_at s 16)),
          no_wind_samples = (if u16_at s 18 = 0 then None else Some (u16_at s 18)),
          inside_temp =
            (if s16_at s 20 = 32767 then None else Some (convert_temp cfg (s16_at s 20))),
          inside_humidity = (if u8_at s 22 = 255 then None else Some (u8_at s 22))\<rparr>"
proof -
  define vl where "vl = [u16_at s 0, u16_at s 2, s16_at s 4, s16_at s 6, s16_at s 8,
                 u16_at s 10, u16_at s 12, u16_at s 14, u16_at s 16, u16_at s 18,
                 s16_at s 20,
                 u8_at s 22, u8_at s 23, u8_at s 24, u8_at s 25,
                 u8_at s 26, u8_at s 27, u8_at s 28, u8_at s 29,
                 u16_at s 30] @ map (u8_at s) [32..<52]"
  have u: "unpack_record s = Inr vl" using assms(1) by (simp add: unpack_record_def vl_def)
  have ix: "vl ! 0 = u16_at s 0" "vl ! 1 = u16_at s 2" "vl ! 2 = s16_at s 4"
    "vl ! 3 = s16_at s 6" "vl ! 4 = s16_at s 8" "vl ! 5 = u16_at s 10"
    "vl ! 6 = u16_at s 12" "vl ! 7 = u16_at s 14" "vl ! 8 = u16_at s 16"
    "vl ! 9 = u16_at s 18" "vl ! 10 = s16_at s 20" "vl ! 11 = u8_at s 22"
    "vl ! 12 = u8_at s 23" "vl ! 13 = u8_at s 24" "vl ! 14 = u8_at s 25"
    by (simp_all add: vl_def)
  have ix': "vl ! 15 = u8_at s 26" "vl ! 16 = u8_at s 27"
    by (simp_all add: vl_def)
  have y: "\<not> (year dt = 0 \<and> month dt = 0 \<and> day dt = 0)"
    using decode_date_year [OF assms(2)] by simp
  obtain dh where dh: "(if vl ! 15 = 255 then Inr None else convert_wind_dir cfg (vl ! 15)) = Inr dh"
    using convert_wind_dir_total [of cfg "vl ! 15"] by (cases "vl ! 15 = 255") auto
  obtain dp where dp: "(if vl ! 16 = 255 then Inr None else convert_wind_dir cfg (vl ! 16)) = Inr dp"
    using convert_wind_dir_total [of cfg "vl ! 16"] by (cases "vl ! 16 = 255") auto
  have "create_archive_data_from_bytes cfg s = Inr \<lparr>record_date = Some dt,
          record_time = tm,
          out_temp = (if s16_at s 4 = 32767 then None else Some (convert_temp cfg (s16_at s 4))),
          low_out_temp = (if s16_at s 8 = 32767 then None else Some (convert_temp cfg (s16_at s 8))),
          hi_out_temp = (if s16_at s 6 = - 32768 then None else Some (convert_temp cfg (s16_at s 6))),
          outside_humidity = (if u8_at s 23 = 255 then None else Some (u8_at s 23)),
          barometer =
            (if u16_at s 14 = 0 then None else Some (convert_air_pressure cfg (u16_at s 14))),
          barometer_sea =
            (if u16_at s 14 = 0 \<or> s16_at s 20 = 32767 then None
             else Some (convert_air_pressure cfg (u16_at s 14) *
                    exp ((- G0 * M_AIR * (0 - altitude cfg)) /
                         (RS * (convert_temp cfg (s16_at s 20) + 273.75))))),
          avg_wind_speed =
            (if u8_at s 24 = 255 then None else Some (convert_wind_speed cfg (u8_at s 24))),
          direction_prev_wind = dp,
          high_wind_speed =
            (if u8_at s 25 = 0 then None else Some (convert_wind_speed cfg (u8_at s 25))),
          direction_hi_wind = dh,
          rainfall = convert_rain cfg (u16_at s 10),
          high_rain_rate = convert_rain cfg (u16_at s 12),
          solar_radiation = (if u16_at s 16 = 32767 then None else Some (u16_at s 16)),
          no_wind_samples = (if u16_at s 18 = 0 then None else Some (u16_at s 18)),
          inside_temp =
            (if s16_at s 20 = 32767 then None else Some (convert_temp cfg (s16_at s 20))),
          inside_humidity = (if u8_at s 22 = 255 then None else Some (u8_at s 22))\<rparr>"
    unfolding create_archive_data_from_bytes_def
    apply (simp only: u assms(2) assms(3) dh dp y sum.case option.case Let_def if_False ix)
    apply (cases "u16_at s 14 = 0"; cases "s16_at s 20 = 32767")
       apply (simp_all add: barometric_formula_converted split del: if_split)
    done
  with dh dp show ?thesis unfolding ix' by blast
qed

lemma create_archive_data_Inr:
  assumes "create_archive_data_from_bytes cfg s = Inr r"
  shows "length s = 52"
    and "\<exists>dt. decode_date (u16_at s 0) = Inr (Some dt)"
    and "\<exists>tm. decode_time (u16_at s 2) = Inr tm"
proof -
  from assms obtain vl where vl: "unpack_record s = Inr vl"
    by (auto simp: create_archive_data_from_bytes_def split: sum.splits)
  then show len: "length s = 52" by (auto simp: unpack_record_def split: if_splits)
  then have ix: "vl ! 0 = u16_at s 0" "vl ! 1 = u16_at s 2"
    using vl by (auto simp: unpack_record_def)
  from assms vl obtain dt where dt: "decode_date (vl ! 0) = Inr (Some dt)"
    by (auto simp: create_archive_data_from_bytes_def split: sum.splits option.splits)
  then show "\<exists>dt. decode_date (u16_at s 0) = Inr (Some dt)" unfolding ix by blast
  from assms vl dt obtain tm where tm: "decode_time (vl ! 1) = Inr tm"
    by (auto simp: create_archive_data_from_bytes_def split: sum.splits)
  then show "\<exists>tm. decode_time (u16_at s 2) = Inr tm" unfolding ix by blast
qed

lemma example_slot_words:
  "length example_slot = 52"
  "u16_at example_slot 0 = 11297" "u16_at example_slot 2 = 1230"
  "u16_at example_slot 10 = 3" "u16_at example_slot 12 = 0"
  "u16_at example_slot 14 = 29920" "s16_at example_slot 20 = 700"
  by (simp_all add: example_slot_def u16_at_def s16_at_def le_u16_def le_s16_def)

lemma sentinel_slot_words:
  "length sentinel_slot = 52"
  "u16_at sentinel_slot 0 = 11297" "u16_at sentinel_slot 2 = 1230"
  "s16_at sentinel_slot 4 = 32767" "s16_at sentinel_slot 6 = - 32768"
  "s16_at sentinel_slot 8 = 32767"
  "u16_at sentinel_slot 10 = 0" "u16_at sentinel_slot 12 = 0"
  "u16_at sentinel_slot 14 = 0" "u16_at sentinel_slot 16 = 32767"
  "u16_at sentinel_slot 18 = 0" "s16_at sentinel_slot 20 = 32767"
  "u8_at sentinel_slot 22 = 255" "u8_at sentinel_slot 23 = 255"
  "u8_at sentinel_slot 24 = 255" "u8_at sentinel_slot 25 = 0"
  "u8_at sentinel_slot 26 = 255" "u8_at sentinel_slot 27 = 255"
  by (simp_all add: sentinel_slot_def u16_at_def s16_at_def u8_at_def le_u16_def le_s16_def)

lemma decode_example_date:
  "decode_date 11297 = Inr (Some \<lparr>year = 2022, month = 1, day = 1\<rparr>)"
  by (simp add: decode_date_arith mk_date_def days_in_month_def)

lemma decode_example_time:
  "decode_time 1230 = Inr (Some \<lparr>hour = 12, minute = 30, second = 0\<rparr>)"
  by (simp add: decode_time_eq mk_time_def)

lemma convert_rain_factor:
  "convert_rain cfg v =
     Some (real_of_int v *
       (case rain_measurements_unit cfg of
          MM \<Rightarrow> (case rain_collector cfg of
                   RAIN_001IN \<Rightarrow> 0.01 * 25.45 | RAIN_01MM \<Rightarrow> 0.1 | RAIN_02MM \<Rightarrow> 0.2)
        | IN \<Rightarrow> (case rain_collector cfg of
                   RAIN_001IN \<Rightarrow> 0.01 | RAIN_01MM \<Rightarrow> 0.1 / 25.45 | RAIN_02MM \<Rightarrow> 0.2 / 25.45)))"
  by (simp add: convert_rain_def split: RainMeasurementsUnit.splits RainCollector.splits)

lemma sentinel_slot_record:
  "create_archive_data_from_bytes cfg sentinel_slot =
     Inr \<lparr>record_date = Some \<lparr>year = 2022, month = 1, day = 1\<rparr>,
          record_time = Some \<lparr>hour = 12, minute = 30, second = 0\<rparr>,
          out_temp = None, low_out_temp = None, hi_out_temp = None,
          outside_humidity = None, barometer = None, barometer_sea = None,
          avg_wind_speed = None, direction_prev_wind = None,
          high_wind_speed = None, direction_hi_wind = None,
          rainfall = Some 0, high_rain_rate = Some 0,
          solar_radiation = None, no_wind_samples = None,
          inside_temp = None, inside_humidity = None\<rparr>"
proof -
  have d: "decode_date (u16_at sentinel_slot 0) = Inr (Some \<lparr>year = 2022, month = 1, day = 1\<rparr>)"
    by (simp only: sentinel_slot_words decode_example_date)
  have t: "decode_time (u16_at sentinel_slot 2) = Inr (Some \<lparr>hour = 12, minute = 30, second = 0\<rparr>)"
    by (simp only: sentinel_slot_words decode_example_time)
  from create_archive_data_record [OF sentinel_slot_words(1) d t, of cfg]
  show ?thesis
    by (auto simp: sentinel_slot_words convert_rain_factor)
qed

lemma create_archive_data_rain:
  assumes "create_archive_data_from_bytes cfg s = Inr r"
  shows "rainfall r = convert_rain cfg (u16_at s 10)"
    and "high_rain_rate r = convert_rain cfg (u16_at s 12)"
proof -
  from create_archive_data_Inr [OF assms]
  obtain dt tm where "length s = 52" "decode_date (u16_at s 0) = Inr (Some dt)"
    "decode_time (u16_at s 2) = Inr tm" by blast
  from create_archive_data_record [OF this, of cfg] assms
  show "rainfall r = convert_rain cfg (u16_at s 10)"
    and "high_rain_rate r = convert_rain cfg (u16_at s 12)"
    by (elim exE conjE, simp add: assms)+
qed

lemma create_archive_data_barometer:
  assumes "create_archive_data_from_bytes cfg s = Inr r"
    and "barometer r = Some b" and "inside_temp r = Some t"
  shows "barometer_sea r =
    Some (b * exp ((- G0 * M_AIR * (0 - altitude cfg)) / (RS * (t + 273.75))))"
proof -
  from create_archive_data_Inr [OF assms(1)]
  obtain dt tm where "length s = 52" "decode_date (u16_at s 0) = Inr (Some dt)"
    "decode_time (u16_at s 2) = Inr tm" by blast
  from create_archive_data_record [OF this, of cfg] assms
  show ?thesis
    by (elim exE conjE) (simp add: assms(1) split: if_splits)
qed

lemma example_slot_decodes:
  "\<exists>r. create_archive_data_from_bytes cfg example_slot = Inr r \<and>
       record_date r = Some \<lparr>year = 2022, month = 1, day = 1\<rparr> \<and>
       record_time r = Some \<lparr>hour = 12, minute = 30, second = 0\<rparr> \<and>
       barometer r = Some (convert_air_pressure cfg 29920) \<and>
       inside_temp r = Some (convert_temp cfg 700)"
proof -
  have d: "decode_date (u16_at example_slot 0) = Inr (Some \<lparr>year = 2022, month = 1, day = 1\<rparr>)"
    by (simp only: example_slot_words decode_example_date)
  have t: "decode_time (u16_at example_slot 2) = Inr (Some \<lparr>hour = 12, minute = 30, second = 0\<rparr>)"
    by (simp only: example_slot_words decode_example_time)
  from create_archive_data_record [OF example_slot_words(1) d t, of cfg]
  show ?thesis
    by (elim exE conjE) (simp add: example_slot_words)
qed

section \<open>Rainfall and sea-level pressure\<close>

text \<open>
  Claim C9 (rain fields).  In every record decoded from a slot, whatever the rain unit
  and the rain collector of the configuration, \<open>rainfall\<close> and \<open>high_rain_rate\<close> are
  present: they are the raw click counts at the offsets 10 and 12, 0 included, times the
  factor of the collector and the unit.  No other measurement is always present: the slot
  \<open>sentinel_slot\<close> decodes, under every configuration, into a record in which the other
  fourteen measurements are all absent, while both rain fields are present with value 0.
\<close>

theorem rain_fields_always_present:
  "(create_archive_data_from_bytes cfg s = Inr r \<longrightarrow>
      rainfall r =
        Some (real_of_int (u16_at s 10) *
          (case rain_measurements_unit cfg of
             MM \<Rightarrow> (case rain_collector cfg of
                      RAIN_001IN \<Rightarrow> 0.01 * 25.45 | RAIN_01MM \<Rightarrow> 0.1 | RAIN_02MM \<Rightarrow> 0.2)
           | IN \<Rightarrow> (case rain_collector cfg of
                      RAIN_001IN \<Rightarrow> 0.01 | RAIN_01MM \<Rightarrow> 0.1 / 25.45
                    | RAIN_02MM \<Rightarrow> 0.2 / 25.45))) \<and>
      high_rain_rate r =
        Some (real_of_int (u16_at s 12) *
          (case rain_measurements_unit cfg of
             MM \<Rightarrow> (case rain_collector cfg of
                      RAIN_001IN \<Rightarrow> 0.01 * 25.45 | RAIN_01MM \<Rightarrow> 0.1 | RAIN_02MM \<Rightarrow> 0.2)
           | IN \<Rightarrow> (case rain_collector cfg of
                      RAIN_001IN \<Rightarrow> 0.01 | RAIN_01MM \<Rightarrow> 0.1 / 25.45
                    | RAIN_02MM \<Rightarrow> 0.2 / 25.45))))
   \<and> create_archive_data_from_bytes cfg' sentinel_slot =
       Inr \<lparr>record_date = Some \<lparr>year = 2022, month = 1, day = 1\<rparr>,
            record_time = Some \<lparr>hour = 12, minute = 30, second = 0\<rparr>,
            out_temp = None, low_out_temp = None, hi_out_temp = None,
            outside_humidity = None, barometer = None, barometer_sea = None,
            avg_wind_speed = None, direction_prev_wind = None,
            high_wind_speed = None, direction_hi_wind = None,
            rainfall = Some 0, high_rain_rate = Some 0,
            solar_radiation = None, no_wind_samples = None,
            inside_temp = None, inside_humidity = None\<rparr>"
proof (intro conjI impI)
  assume a: "create_archive_data_from_bytes cfg s = Inr r"
  show "rainfall r =
        Some (real_of_int (u16_at s 10) *
          (case rain_measurements_unit cfg of
             MM \<Rightarrow> (case rain_collector cfg of
                      RAIN_001IN \<Rightarrow> 0.01 * 25.45 | RAIN_01MM \<Rightarrow> 0.1 | RAIN_02MM \<Rightarrow> 0.2)
           | IN \<Rightarrow> (case rain_collector cfg of
                      RAIN_001IN \<Rightarrow> 0.01 | RAIN_01MM \<Rightarrow> 0.1 / 25.45
                    | RAIN_02MM \<Rightarrow> 0.2 / 25.45)))"
    unfolding create_archive_data_rain(1) [OF a] by (rule convert_rain_factor)
  show "high_rain_rate r =
        Some (real_of_int (u16_at s 12) *
          (case rain_measurements_unit cfg of
             MM \<Rightarrow> (case rain_collector cfg of
                      RAIN_001IN \<Rightarrow> 0.01 * 25.45 | RAIN_01MM \<Rightarrow> 0.1 | RAIN_02MM \<Rightarrow> 0.2)
           | IN \<Rightarrow> (case rain_collector cfg of
                      RAIN_001IN \<Rightarrow> 0.01 | RAIN_01MM \<Rightarrow> 0.1 / 25.45
                    | RAIN_02MM \<Rightarrow> 0.2 / 25.45)))"
    unfolding create_archive_data_rain(2) [OF a] by (rule convert_rain_factor)
next
  show "create_archive_data_from_bytes cfg' sentinel_slot =
       Inr \<lparr>record_date = Some \<lparr>year = 2022, month = 1, day = 1\<rparr>,
            record_time = Some \<lparr>hour = 12, minute = 30, second = 0\<rparr>,
            out_temp = None, low_out_temp = None, hi_out_temp = None,
            outside_humidity = None, barometer = None, barometer_sea = None,
            avg_wind_speed = None, direction_prev_wind = None,
            high_wind_speed = None, direction_hi_wind = None,
            rainfall = Some 0, high_rain_rate = Some 0,
            solar_radiation = None, no_wind_samples = None,
            inside_temp = None, inside_humidity = None\<rparr>"
    by (rule sentinel_slot_record)
qed

theorem rain_fields_always_present_witness:
  "\<exists>r. create_archive_data_from_bytes default_config example_slot = Inr r \<and>
       rainfall r = Some (3 * 0.2) \<and> high_rain_rate r = Some 0"
proof -
  obtain r where r: "create_archive_data_from_bytes default_config example_slot = Inr r"
    using example_slot_decodes [of default_config] by blast
  from rain_fields_always_present [of default_config example_slot r, THEN conjunct1, THEN mp, OF r]
  have "rainfall r = Some (3 * 0.2) \<and> high_rain_rate r = Some 0"
    by (simp add: example_slot_words default_config_def)
  with r show ?thesis by blast
qed

text \<open>
  Claim C10 (sea-level pressure at altitude 0).  When the configured altitude is 0 and a
  decoded record has both \<open>barometer\<close> and \<open>inside_temp\<close>, its \<open>barometer_sea\<close> equals its
  \<open>barometer\<close>: the height difference passed to the barometric formula is 0 and the
  exponential factor is \<open>exp 0 = 1\<close>.  On a temperature converted from a raw value the
  formula does not divide by zero, so at height difference 0 it returns the pressure it is
  given.
\<close>

theorem barometer_sea_at_altitude_zero:
  "(create_archive_data_from_bytes cfg s = Inr r \<and> altitude cfg = 0 \<and>
    barometer r = Some b \<and> inside_temp r = Some t \<longrightarrow> barometer_sea r = Some b)
   \<and> barometric_formula (convert_temp cfg' v) p 0 = Inr p"
proof (intro conjI impI)
  assume a: "create_archive_data_from_bytes cfg s = Inr r \<and> altitude cfg = 0 \<and>
    barometer r = Some b \<and> inside_temp r = Some t"
  then have "barometer_sea r =
    Some (b * exp ((- G0 * M_AIR * (0 - altitude cfg)) / (RS * (t + 273.75))))"
    using create_archive_data_barometer [of cfg s r b t] by blast
  with a show "barometer_sea r = Some b" by simp
next
  show "barometric_formula (convert_temp cfg' v) p 0 = Inr p"
    by (simp add: barometric_formula_converted)
qed

theorem barometer_sea_at_altitude_zero_witness:
  "\<exists>r. create_archive_data_from_bytes default_config example_slot = Inr r \<and>
       altitude default_config = 0 \<and>
       barometer r = Some (29920 / 1000 * 33.86389) \<and>
       inside_temp r = Some (5 / 9 * (700 / 10 - 32)) \<and>
       barometer_sea r = Some (29920 / 1000 * 33.86389)"
proof -
  obtain r where r: "create_archive_data_from_bytes default_config example_slot = Inr r"
    and b: "barometer r = Some (convert_air_pressure default_config 29920)"
    and t: "inside_temp r = Some (convert_temp default_config 700)"
    using example_slot_decodes [of default_config] by blast
  have z: "altitude default_config = 0" by (simp add: default_config_def)
  have h: "create_archive_data_from_bytes default_config example_slot = Inr r \<and>
    altitude default_config = 0 \<and>
    barometer r = Some (convert_air_pressure default_config 29920) \<and>
    inside_temp r = Some (convert_temp default_config 700)"
    using r z b t by simp
  from barometer_sea_at_altitude_zero [of default_config example_slot r
      "convert_air_pressure default_config 29920" "convert_temp default_config 700",
      THEN conjunct1, THEN mp, OF h]
  have "barometer_sea r = Some (convert_air_pressure default_config 29920)" .
  with r z b t show ?thesis
    by (auto simp: convert_air_pressure_def convert_temp_def default_config_def)
qed

section \<open>Downloading the archive\<close>

subsection \<open>The order of the returned records\<close>

lemma datetimes_zip:
  "datetimes recs = Inr ks \<Longrightarrow>
   length ks = length recs \<and> (\<forall>kr \<in> set (zip ks recs). meteo_datetime (snd kr) = Inr (fst kr))"
proof (induction recs arbitrary: ks)
  case Nil
  then show ?case by simp
next
  case (Cons r recs)
  from Cons.prems obtain k ks' where k: "meteo_datetime r = Inr k"
    and ks': "datetimes recs = Inr ks'" and ks: "ks = k # ks'"
    by (auto split: sum.splits)
  from Cons.IH [OF ks'] k show ?case unfolding ks by auto
qed

lemma datetimes_map_snd:
  "(\<forall>kr \<in> set L. meteo_datetime (snd kr) = Inr (fst kr)) \<Longrightarrow>
   datetimes (map snd L) = Inr (map fst L)"
  by (induction L) auto

lemma sort_records_sorted:
  assumes "sort_records records = Inr srt"
  shows "\<exists>ks. datetimes srt = Inr ks \<and> sorted (map datetime_key ks)"
proof -
  from assms obtain ks0 where ks0: "datetimes records = Inr ks0"
    and srt: "srt = map snd (sort_key (\<lambda>kr. datetime_key (fst kr)) (zip ks0 records))"
    by (auto simp: sort_records_def split: sum.splits)
  let ?L = "sort_key (\<lambda>kr. datetime_key (fst kr)) (zip ks0 records)"
  have "\<forall>kr \<in> set ?L. meteo_datetime (snd kr) = Inr (fst kr)"
    using datetimes_zip [OF ks0] by simp
  then have d: "datetimes srt = Inr (map fst ?L)"
    unfolding srt by (rule datetimes_map_snd)
  have "sorted (map (\<lambda>kr. datetime_key (fst kr)) ?L)"
    by (rule sorted_sort_key)
  then have "sorted (map datetime_key (map fst ?L))"
    by (simp add: comp_def)
  with d show ?thesis by blast
qed

lemma get_archive_data_sorts:
  assumes "get_archive_data cfg since p = Inr (recs, p')"
  shows "\<exists>records. sort_records records = Inr recs"
  using assms
  by (auto simp: get_archive_data_def Let_def split: sum.splits prod.splits)

subsection \<open>The example page\<close>

lemma example_slot_fields:
  "s16_at example_slot 4 = 215" "s16_at example_slot 6 = 220" "s16_at example_slot 8 = 210"
  "u16_at example_slot 16 = 32767" "u16_at example_slot 18 = 100"
  "u8_at example_slot 22 = 40" "u8_at example_slot 23 = 55"
  "u8_at example_slot 24 = 5" "u8_at example_slot 25 = 12"
  "u8_at example_slot 26 = 8" "u8_at example_slot 27 = 8"
  by (simp_all add: example_slot_def u16_at_def s16_at_def u8_at_def le_u16_def le_s16_def)

lemma convert_wind_dir_south:
  "convert_wind_dir default_config 8 = Inr (Some (DirName ''S''))"
  by (simp add: convert_wind_dir_def list_get_def WIND_DIRECTIONS_def default_config_def)

lemma create_example_record:
  "create_archive_data_from_bytes default_config example_slot = Inr example_record"
proof -
  have d: "decode_date (u16_at example_slot 0) = Inr (Some \<lparr>year = 2022, month = 1, day = 1\<rparr>)"
    by (simp only: example_slot_words decode_example_date)
  have t: "decode_time (u16_at example_slot 2) = Inr (Some \<lparr>hour = 12, minute = 30, second = 0\<rparr>)"
    by (simp only: example_slot_words decode_example_time)
  have c: "convert_temp default_config v = 5 / 9 * (real_of_int v / 10 - 32)" for v
    by (simp add: convert_temp_def default_config_def)
  have a: "convert_air_pressure default_config v = real_of_int v / 1000 * 33.86389" for v
    by (simp add: convert_air_pressure_def default_config_def)
  have w: "convert_wind_speed default_config v = real_of_int v * 0.44704" for v
    by (simp add: convert_wind_speed_def default_config_def)
  have r: "convert_rain default_config v = Some (real_of_int v * 0.2)" for v
    by (simp add: convert_rain_def default_config_def)
  have z: "altitude default_config = 0" by (simp add: default_config_def)
  from create_archive_data_record [OF example_slot_words(1) d t, of default_config]
  show ?thesis
    by (elim exE conjE)
      (simp add: example_slot_words example_slot_fields convert_wind_dir_south
        c a w r z example_record_def)
qed

subsection \<open>A page with a matching CRC, and the header\<close>

lemma pages_loop_good_page:
  assumes "length page = 265" and "calculate_crc page = Inr (be_u16 c0 c1)"
  shows "pages_loop cfg since vr i (Suc n) \<lparr>rx = page @ c0 # c1 # rest, tx = t\<rparr> records =
     (case slots_loop cfg since vr i (map (\<lambda>j. take 52 (drop (1 + 52 * j) page)) [0..<5])
             [0..<5] records of
        Inl e \<Rightarrow> Inl e
      | Inr records' \<Rightarrow> pages_loop cfg since vr (Suc i) n \<lparr>rx = rest, tx = t @ [ACK]\<rparr> records')"
proof -
  have a: "take 267 (page @ c0 # c1 # rest) = page @ [c0, c1]"
    using assms(1) by simp
  have b: "drop 267 (page @ c0 # c1 # rest) = rest"
    using assms(1) by simp
  have c: "take 265 (page @ [c0, c1]) = page" "drop 265 (page @ [c0, c1]) = [c0, c1]"
    using assms(1) by simp_all
  have u: "unpack_page page = Inr (map (\<lambda>j. take 52 (drop (1 + 52 * j) page)) [0..<5])"
    using assms(1) by (simp add: unpack_page_def)
  show ?thesis
    by (simp add: comm_read_def assms u write_ack_def comm_write_def Let_def
        del: upt.simps split: sum.splits)
qed

text \<open>
  The two CRC bytes \<open>c0\<close>, \<open>c1\<close> received after the header do not occur on the right:
  the CRC computed over the header is not compared with them.
\<close>

lemma get_archive_data_header:
  "get_archive_data cfg since \<lparr>rx = a # b # h0 # h1 # h2 # h3 # c0 # c1 # rest, tx = t\<rparr> =
     (case date_time_to_array since of
        Inl e \<Rightarrow> Inl e
      | Inr buf \<Rightarrow>
     (case calculate_crc buf of
        Inl e \<Rightarrow> Inl e
      | Inr crc_buf \<Rightarrow>
     (case pack_be_H crc_buf of
        Inl e \<Rightarrow> Inl e
      | Inr crc_bytes \<Rightarrow>
     (case pages_loop cfg since (le_u16 h2 h3) 0 (nat (le_u16 h0 h1))
             \<lparr>rx = rest, tx = t @ ascii ''DMPAFT'' @ [LF] @ buf @ crc_bytes @ [ACK]\<rparr> [] of
        Inl e \<Rightarrow> Inl e
      | Inr (records, p9) \<Rightarrow>
          (case sort_records records of
             Inl e \<Rightarrow> Inl e
           | Inr sorted_records \<Rightarrow> Inr (sorted_records, p9))))))"
proof -
  obtain c where c: "calculate_crc [h0, h1, h2, h3] = Inr c"
    using calculate_crc_total by blast
  show ?thesis
    by (simp add: get_archive_data_def comm_write_simp wait_for_ack_Cons Let_def comm_read_def
        write_ack_def c split: sum.splits)
qed

lemma example_page_length: "length example_page = 265"
  by (simp add: example_page_def example_slot_def empty_slot_def)

lemma example_page_crc: "calculate_crc example_page = Inr 7952"
  by code_simp

lemma example_page_slots:
  "map (\<lambda>j. take 52 (drop (1 + 52 * j) example_page)) [0..<5] =
     [example_slot, example_slot, empty_slot, empty_slot, empty_slot]"
  by code_simp

lemma is_valid_example_slot: "is_valid_record example_slot = Inr True"
  by code_simp

lemma is_valid_empty_slot: "is_valid_record empty_slot = Inr False"
  by code_simp

lemma example_record_datetime:
  "meteo_datetime example_record =
     Inr \<lparr>dt_date = \<lparr>year = 2022, month = 1, day = 1\<rparr>,
          dt_time = \<lparr>hour = 12, minute = 30, second = 0\<rparr>\<rparr>"
  by (simp add: meteo_datetime_def example_record_def)

lemma upt_5: "[0..<5] = [0, 1, 2, 3, 4]"
  by code_simp

lemma example_page_records:
  "slots_loop default_config NULL_DATE_TIME 0 0
     [example_slot, example_slot, empty_slot, empty_slot, empty_slot] [0..<5] [] =
   Inr [example_record, example_record]"
  by (simp add: upt_5 process_slot_def is_valid_example_slot is_valid_empty_slot
      create_example_record example_record_datetime datetime_key_def NULL_DATE_TIME_def
      NULL_DATE_def)

lemma sort_example_records:
  "sort_records [example_record, example_record] = Inr [example_record, example_record]"
  by (simp add: sort_records_def example_record_datetime)

lemma get_archive_data_example:
  "get_archive_data default_config NULL_DATE_TIME
     \<lparr>rx = a # b # 1 # 0 # 0 # 0 # c0 # c1 # example_page @ [0x1F, 0x10], tx = []\<rparr> =
   Inr ([example_record, example_record],
        \<lparr>rx = [], tx = ascii ''DMPAFT'' @ [LF] @ [0, 0, 0, 0] @ [0, 0] @ [ACK] @ [ACK]\<rparr>)"
proof -
  have d: "date_time_to_array NULL_DATE_TIME = Inr [0, 0, 0, 0]"
    by (simp add: date_time_to_array_def NULL_DATE_TIME_def encode_date_def encode_time_def
        pack_le_2H_def)
  have c: "calculate_crc [0, 0, 0, 0] = Inr 0" by code_simp
  have p: "pack_be_H 0 = Inr [0, 0]" by (simp add: pack_be_H_def)
  have h: "le_u16 0 0 = 0" "nat (le_u16 1 0) = Suc 0" by (simp_all add: le_u16_def)
  have k: "calculate_crc example_page = Inr (be_u16 0x1F 0x10)"
    by (simp add: example_page_crc be_u16_def)
  have l: "pages_loop default_config NULL_DATE_TIME 0 0 (Suc 0)
      \<lparr>rx = example_page @ 0x1F # 0x10 # [], tx = t\<rparr> [] =
      Inr ([example_record, example_record], \<lparr>rx = [], tx = t @ [ACK]\<rparr>)" for t
    by (subst pages_loop_good_page [OF example_page_length k])
      (simp only: example_page_slots example_page_records sum.case pages_loop.simps)
  show ?thesis
    by (simp only: get_archive_data_header d c p h sum.case l prod.case sort_example_records)
      simp
qed

subsection \<open>The header CRC and the order of the result\<close>

lemma header_crc_example: "calculate_crc [1, 0, 0, 0] = Inr 30388"
  by code_simp

text \<open>
  Claim C3 on the code.  The console answers \<^verbatim>\<open>DMPAFT\<close> with the header 01 00 00 00 (one
  page, first valid record 0), whose CRC is \<open>0x76B4\<close>, followed by the CRC bytes 00 00.
  The CRCs do not match, and yet \<^verbatim>\<open>get_archive_data\<close> does not fail: it acknowledges
  the header, reads the page, acknowledges it and returns its two records.  In general
  the result does not depend on the two CRC bytes received after the header.
\<close>

theorem get_archive_data_header_crc_unchecked:
  "calculate_crc [1, 0, 0, 0] = Inr 30388
   \<and> unpack_from_be_H [0, 0] = Inr 0
   \<and> get_archive_data default_config NULL_DATE_TIME
       \<lparr>rx = ACK # ACK # 1 # 0 # 0 # 0 # 0 # 0 # example_page @ [0x1F, 0x10], tx = []\<rparr> =
     Inr ([example_record, example_record],
          \<lparr>rx = [], tx = ascii ''DMPAFT'' @ [LF] @ [0, 0, 0, 0] @ [0, 0] @ [ACK] @ [ACK]\<rparr>)
   \<and> get_archive_data cfg since \<lparr>rx = a # b # h0 # h1 # h2 # h3 # c0 # c1 # rest, tx = t\<rparr> =
     get_archive_data cfg since \<lparr>rx = a # b # h0 # h1 # h2 # h3 # c0' # c1' # rest, tx = t\<rparr>"
proof (intro conjI)
  show "calculate_crc [1, 0, 0, 0] = Inr 30388" by (rule header_crc_example)
  show "unpack_from_be_H [0, 0] = Inr 0" by (simp add: be_u16_def)
  show "get_archive_data default_config NULL_DATE_TIME
       \<lparr>rx = ACK # ACK # 1 # 0 # 0 # 0 # 0 # 0 # example_page @ [0x1F, 0x10], tx = []\<rparr> =
     Inr ([example_record, example_record],
          \<lparr>rx = [], tx = ascii ''DMPAFT'' @ [LF] @ [0, 0, 0, 0] @ [0, 0] @ [ACK] @ [ACK]\<rparr>)"
    by (rule get_archive_data_example)
  show "get_archive_data cfg since \<lparr>rx = a # b # h0 # h1 # h2 # h3 # c0 # c1 # rest, tx = t\<rparr> =
     get_archive_data cfg since \<lparr>rx = a # b # h0 # h1 # h2 # h3 # c0' # c1' # rest, tx = t\<rparr>"
    by (simp only: get_archive_data_header)
qed

text \<open>
  Claim C5, as the code has it.  The records returned by \<^verbatim>\<open>get_archive_data\<close> are sorted
  by timestamp in non-decreasing order: of two consecutive returned records the first has
  a timestamp less than or equal to that of the second.  Records are not removed for
  sharing a timestamp.
\<close>

theorem archive_records_sorted:
  "get_archive_data cfg since p = Inr (recs, p') \<Longrightarrow>
   \<exists>ks. datetimes recs = Inr ks \<and> sorted (map datetime_key ks)"
proof -
  assume "get_archive_data cfg since p = Inr (recs, p')"
  then obtain records where "sort_records records = Inr recs"
    using get_archive_data_sorts by blast
  then show ?thesis by (rule sort_records_sorted)
qed

theorem archive_records_sorted_witness:
  "get_archive_data default_config NULL_DATE_TIME
       \<lparr>rx = NAK # ACK # 1 # 0 # 0 # 0 # 0x76 # 0xB4 # example_page @ [0x1F, 0x10], tx = []\<rparr> =
     Inr ([example_record, example_record],
          \<lparr>rx = [], tx = ascii ''DMPAFT'' @ [LF] @ [0, 0, 0, 0] @ [0, 0] @ [ACK] @ [ACK]\<rparr>)
   \<and> (\<exists>ks. datetimes [example_record, example_record] = Inr ks \<and> sorted (map datetime_key ks))"
proof -
  have g: "get_archive_data default_config NULL_DATE_TIME
       \<lparr>rx = NAK # ACK # 1 # 0 # 0 # 0 # 0x76 # 0xB4 # example_page @ [0x1F, 0x10], tx = []\<rparr> =
     Inr ([example_record, example_record],
          \<lparr>rx = [], tx = ascii ''DMPAFT'' @ [LF] @ [0, 0, 0, 0] @ [0, 0] @ [ACK] @ [ACK]\<rparr>)"
    by (rule get_archive_data_example)
  from archive_records_sorted [OF g] g show ?thesis by blast
qed

text \<open>
  The claim as stated fails: with the header and its right CRC \<open>0x76B4\<close> and a page that
  holds the same slot twice, two records with the timestamp 2022-01-01 12:30 are
  returned, one after the other.
\<close>

theorem archive_records_share_timestamp:
  "get_archive_data default_config NULL_DATE_TIME
       \<lparr>rx = ACK # ACK # 1 # 0 # 0 # 0 # 0x76 # 0xB4 # example_page @ [0x1F, 0x10], tx = []\<rparr> =
     Inr ([example_record, example_record],
          \<lparr>rx = [], tx = ascii ''DMPAFT'' @ [LF] @ [0, 0, 0, 0] @ [0, 0] @ [ACK] @ [ACK]\<rparr>)
   \<and> datetimes [example_record, example_record] =
       Inr [\<lparr>dt_date = \<lparr>year = 2022, month = 1, day = 1\<rparr>,
             dt_time = \<lparr>hour = 12, minute = 30, second = 0\<rparr>\<rparr>,
            \<lparr>dt_date = \<lparr>year = 2022, month = 1, day = 1\<rparr>,
             dt_time = \<lparr>hour = 12, minute = 30, second = 0\<rparr>\<rparr>]
   \<and> \<not> datetime_key \<lparr>dt_date = \<lparr>year = 2022, month = 1, day = 1\<rparr>,
                        dt_time = \<lparr>hour = 12, minute = 30, second = 0\<rparr>\<rparr>
         < datetime_key \<lparr>dt_date = \<lparr>year = 2022, month = 1, day = 1\<rparr>,
                          dt_time = \<lparr>hour = 12, minute = 30, second = 0\<rparr>\<rparr>"
proof (intro conjI)
  show "get_archive_data default_config NULL_DATE_TIME
       \<lparr>rx = ACK # ACK # 1 # 0 # 0 # 0 # 0x76 # 0xB4 # example_page @ [0x1F, 0x10], tx = []\<rparr> =
     Inr ([example_record, example_record],
          \<lparr>rx = [], tx = ascii ''DMPAFT'' @ [LF] @ [0, 0, 0, 0] @ [0, 0] @ [ACK] @ [ACK]\<rparr>)"
    by (rule get_archive_data_example)
  show "datetimes [example_record, example_record] =
       Inr [\<lparr>dt_date = \<lparr>year = 2022, month = 1, day = 1\<rparr>,
             dt_time = \<lparr>hour = 12, minute = 30, second = 0\<rparr>\<rparr>,
            \<lparr>dt_date = \<lparr>year = 2022, month = 1, day = 1\<rparr>,
             dt_time = \<lparr>hour = 12, minute = 30, second = 0\<rparr>\<rparr>]"
    by (simp add: example_record_datetime)
  show "\<not> datetime_key \<lparr>dt_date = \<lparr>year = 2022, month = 1, day = 1\<rparr>,
                        dt_time = \<lparr>hour = 12, minute = 30, second = 0\<rparr>\<rparr>
         < datetime_key \<lparr>dt_date = \<lparr>year = 2022, month = 1, day = 1\<rparr>,
                          dt_time = \<lparr>hour = 12, minute = 30, second = 0\<rparr>\<rparr>"
    by simp
qed

end
